theory Spec2Isabelle
  imports Main "HOL-Library.Word" "HOL-Library.Signed_Division"
begin

unbundle bit_operations_syntax

section \<open>Bytes, memory and cursors\<close>

text \<open>
  The column codec of \<^verbatim>\<open>convert.c\<close> walks a row through an \<^verbatim>\<open>unsigned char **data\<close>:
  a cursor into memory that every decoder advances. No decoder receives the end of the
  buffer. A byte (\<^verbatim>\<open>unsigned char\<close>) is a \<^typ>\<open>char\<close>, memory is a total map from
  addresses to bytes, and the cursor is an address.
\<close>

type_synonym memory = "nat \<Rightarrow> char"

definition read_bytes :: "memory \<Rightarrow> nat \<Rightarrow> nat \<Rightarrow> string" where
  "read_bytes mem p n = map mem [p..<p + n]"

text \<open>A row buffer laid out from address 0; the memory behind it holds zero bytes.\<close>

definition load :: "string \<Rightarrow> memory" where
  "load bs a = (if a < length bs then bs ! a else CHR 0x00)"

definition le_nat :: "string \<Rightarrow> nat" where
  "le_nat bs = foldr (\<lambda>c n. of_char c + 256 * n) bs 0"

definition le_bytes :: "nat \<Rightarrow> nat \<Rightarrow> string" where
  "le_bytes n v = map (\<lambda>i. char_of (v div 256 ^ i)) [0..<n]"

text \<open>
  Modelled from the spec: the \<^verbatim>\<open>unpack_*\<close> helpers are declared in \<^verbatim>\<open>util.h\<close>, which is
  not among the sources. The spec has them read a fixed-width integer in the wire format's
  little-endian layout and advance the cursor by exactly the width. Signedness is in how
  the word is read afterwards (\<^const>\<open>sint\<close> or \<^const>\<open>unat\<close>).
\<close>

definition unpack_int8_t :: "memory \<Rightarrow> nat \<Rightarrow> 8 word \<times> nat" where
  "unpack_int8_t mem p = (word_of_nat (le_nat (read_bytes mem p 1)), p + 1)"

definition unpack_int16_t :: "memory \<Rightarrow> nat \<Rightarrow> 16 word \<times> nat" where
  "unpack_int16_t mem p = (word_of_nat (le_nat (read_bytes mem p 2)), p + 2)"

definition unpack_uint16_t :: "memory \<Rightarrow> nat \<Rightarrow> 16 word \<times> nat" where
  "unpack_uint16_t mem p = (word_of_nat (le_nat (read_bytes mem p 2)), p + 2)"

definition unpack_int32_t :: "memory \<Rightarrow> nat \<Rightarrow> 32 word \<times> nat" where
  "unpack_int32_t mem p = (word_of_nat (le_nat (read_bytes mem p 4)), p + 4)"

definition unpack_int64_t :: "memory \<Rightarrow> nat \<Rightarrow> 64 word \<times> nat" where
  "unpack_int64_t mem p = (word_of_nat (le_nat (read_bytes mem p 8)), p + 8)"

definition unpack_uint64_t :: "memory \<Rightarrow> nat \<Rightarrow> 64 word \<times> nat" where
  "unpack_uint64_t mem p = (word_of_nat (le_nat (read_bytes mem p 8)), p + 8)"

text \<open>
  Modelled from the spec: the \<^verbatim>\<open>pack_*\<close> helpers are declared in \<^verbatim>\<open>util.h\<close> as well. The
  spec has them write a fixed-width integer in the same layout and advance the output
  cursor by exactly the width. The encoders write through \<^verbatim>\<open>unsigned char **buf\<close>; the
  model keeps the bytes written so far, so that the output cursor is their number.
\<close>

definition pack_int32_t :: "string \<Rightarrow> 32 word \<Rightarrow> string" where
  "pack_int32_t out l = out @ le_bytes 4 (unat l)"

definition pack_int64_t :: "string \<Rightarrow> 64 word \<Rightarrow> string" where
  "pack_int64_t out q = out @ le_bytes 8 (unat q)"

section \<open>Host objects and outcomes\<close>

text \<open>
  The values handed to and taken from the host. A Python \<^verbatim>\<open>str\<close> is kept as its UTF-8
  encoding. A decoder returns a \<^verbatim>\<open>PyObject *\<close>: \<open>None\<close> is the \<^verbatim>\<open>NULL\<close> of a failed
  call.
\<close>

datatype pyobject =
    PyNone
  | PyLong int
  | PyUnicode string
  | PyBytes string
  | GiraffezTime int int int int
  | GiraffezDate int int int int int int int

text \<open>
  Modelled from the spec: \<^verbatim>\<open>giraffez_time_from_time\<close> and
  \<^verbatim>\<open>giraffez_date_from_datetime\<close> are declared in \<^verbatim>\<open>pytypes.h\<close>, which is not among
  the sources; the spec has them hand the host the fields they are given.
\<close>

definition giraffez_time_from_time :: "int \<Rightarrow> int \<Rightarrow> int \<Rightarrow> int \<Rightarrow> pyobject option" where
  "giraffez_time_from_time hour minute second microsecond =
     Some (GiraffezTime hour minute second microsecond)"

definition giraffez_date_from_datetime ::
  "int \<Rightarrow> int \<Rightarrow> int \<Rightarrow> int \<Rightarrow> int \<Rightarrow> int \<Rightarrow> int \<Rightarrow> pyobject option" where
  "giraffez_date_from_datetime year month day hour minute second microsecond =
     Some (GiraffezDate year month day hour minute second microsecond)"

text \<open>
  Where C leaves the behaviour of the code undefined, the model stops with a fault:
  a conversion of a \<^verbatim>\<open>double\<close> to an integer type that cannot hold it, a write behind
  the end of one of the two static scratch buffers, an access through \<^verbatim>\<open>NULL\<close>.
\<close>

datatype fault = Float_To_Int_Overflow | Scratch_Overflow | Null_Dereference

datatype pyexc = TypeError | ValueError | OverflowError | SystemError

section \<open>Text: UTF-8, C strings, printf\<close>

definition cont_byte :: "char \<Rightarrow> bool" where
  "cont_byte c \<longleftrightarrow> (0x80::nat) \<le> of_char c \<and> (of_char c :: nat) \<le> 0xBF"

definition byte_in :: "nat \<Rightarrow> nat \<Rightarrow> char \<Rightarrow> bool" where
  "byte_in lo hi c \<longleftrightarrow> lo \<le> of_char c \<and> (of_char c :: nat) \<le> hi"

text \<open>The strict UTF-8 decoder of the host: no overlong forms, no surrogates, at most U+10FFFF.\<close>

fun utf8_valid :: "string \<Rightarrow> bool" where
  "utf8_valid [] = True"
| "utf8_valid (c # cs) =
     (if byte_in 0x00 0x7F c then utf8_valid cs
      else if byte_in 0xC2 0xDF c then
        (case cs of c1 # r \<Rightarrow> cont_byte c1 \<and> utf8_valid r | _ \<Rightarrow> False)
      else if byte_in 0xE0 0xEF c then
        (case cs of c1 # c2 # r \<Rightarrow>
           (if c = CHR 0xE0 then byte_in 0xA0 0xBF c1
            else if c = CHR 0xED then byte_in 0x80 0x9F c1
            else cont_byte c1) \<and> cont_byte c2 \<and> utf8_valid r
         | _ \<Rightarrow> False)
      else if byte_in 0xF0 0xF4 c then
        (case cs of c1 # c2 # c3 # r \<Rightarrow>
           (if c = CHR 0xF0 then byte_in 0x90 0xBF c1
            else if c = CHR 0xF4 then byte_in 0x80 0x8F c1
            else cont_byte c1) \<and> cont_byte c2 \<and> cont_byte c3 \<and> utf8_valid r
         | _ \<Rightarrow> False)
      else False)"

definition PyUnicode_FromStringAndSize :: "string \<Rightarrow> pyobject option" where
  "PyUnicode_FromStringAndSize u = (if utf8_valid u then Some (PyUnicode u) else None)"

definition PyUnicode_AsASCIIString :: "string \<Rightarrow> pyobject option" where
  "PyUnicode_AsASCIIString u =
     (if \<forall>c \<in> set u. byte_in 0x00 0x7F c then Some (PyBytes u) else None)"

text \<open>A \<^verbatim>\<open>char *\<close> read as a C string ends before its first zero byte.\<close>

definition c_string :: "string \<Rightarrow> string" where
  "c_string bs = takeWhile (\<lambda>c. c \<noteq> CHR 0x00) bs"

fun show_nat :: "nat \<Rightarrow> string" where
  "show_nat n =
     (if n < 10 then [char_of (48 + n)]
      else show_nat (n div 10) @ [char_of (48 + n mod 10)])"

declare show_nat.simps [simp del]

text \<open>The conversion \<^verbatim>\<open>%d\<close>, and \<^verbatim>\<open>%0*d\<close> with its minimum field width.\<close>

definition show_int :: "int \<Rightarrow> string" where
  "show_int k = (if k < 0 then CHR ''-'' # show_nat (nat (- k)) else show_nat (nat k))"

definition show_int_zero_padded :: "nat \<Rightarrow> int \<Rightarrow> string" where
  "show_int_zero_padded width k =
     (let sign = (if k < 0 then ''-'' else ''''); digits = show_nat (nat \<bar>k\<bar>)
      in sign @ replicate (width - length sign - length digits) CHR ''0'' @ digits)"

definition PyUnicode_FromFormat_d :: "int \<Rightarrow> pyobject option" where
  "PyUnicode_FromFormat_d k = Some (PyUnicode (show_int k))"

definition pystring_from_cformat :: "string \<Rightarrow> pyobject option" where
  "pystring_from_cformat formatted = PyUnicode_FromStringAndSize formatted"

section \<open>Decoding: scalars and text\<close>

definition byte_to_pylong :: "memory \<Rightarrow> nat \<Rightarrow> fault + (pyobject option \<times> nat)" where
  "byte_to_pylong mem p = (let (b, p') = unpack_int8_t mem p in Inr (Some (PyLong (sint b)), p'))"

definition short_to_pylong :: "memory \<Rightarrow> nat \<Rightarrow> fault + (pyobject option \<times> nat)" where
  "short_to_pylong mem p = (let (h, p') = unpack_int16_t mem p in Inr (Some (PyLong (sint h)), p'))"

definition int_to_pylong :: "memory \<Rightarrow> nat \<Rightarrow> fault + (pyobject option \<times> nat)" where
  "int_to_pylong mem p = (let (l, p') = unpack_int32_t mem p in Inr (Some (PyLong (sint l)), p'))"

definition long_to_pylong :: "memory \<Rightarrow> nat \<Rightarrow> fault + (pyobject option \<times> nat)" where
  "long_to_pylong mem p = (let (q, p') = unpack_int64_t mem p in Inr (Some (PyLong (sint q)), p'))"

text \<open>
  \<^verbatim>\<open>char_to_pystring\<close> hands \<^verbatim>\<open>column_length\<close> bytes from the cursor to the host and
  moves the cursor, whatever the host returns. The host takes the size as a signed
  \<^verbatim>\<open>Py_ssize_t\<close> and refuses a negative one.
\<close>

definition char_to_pystring :: "memory \<Rightarrow> nat \<Rightarrow> 64 word \<Rightarrow> fault + (pyobject option \<times> nat)" where
  "char_to_pystring mem p column_length =
     (let str = (if sint column_length < 0 then None
                 else PyUnicode_FromStringAndSize (read_bytes mem p (unat column_length)))
      in Inr (str, p + unat column_length))"

definition vchar_to_pystring :: "memory \<Rightarrow> nat \<Rightarrow> fault + (pyobject option \<times> nat)" where
  "vchar_to_pystring mem p =
     (let (H, p') = unpack_uint16_t mem p;
          str = PyUnicode_FromStringAndSize (read_bytes mem p' (unat H))
      in Inr (str, p' + unat H))"

section \<open>Decoding: dates and times\<close>

text \<open>
  The offset date. \<^verbatim>\<open>l += 19000000\<close> is an \<^verbatim>\<open>int32_t\<close> addition (it wraps, as word
  addition does); \<^verbatim>\<open>/\<close> and \<^verbatim>\<open>%\<close> are C's, which truncate towards zero:
  \<^const>\<open>signed_divide\<close> and \<^const>\<open>signed_modulo\<close> on the signed value.
\<close>

definition date_to_pydate :: "memory \<Rightarrow> nat \<Rightarrow> fault + (pyobject option \<times> nat)" where
  "date_to_pydate mem p =
     (let (l, p') = unpack_int32_t mem p;
          l = l + 19000000;
          year = sint l sdiv 10000;
          month = (sint l smod 10000) sdiv 100;
          day = sint l smod 100
      in Inr (giraffez_date_from_datetime year month day 0 0 0 0, p'))"

text \<open>
  \<^verbatim>\<open>date_to_pystring\<close> formats into \<^verbatim>\<open>char s[11]\<close> with \<^verbatim>\<open>%04d-%02d-%02d\<close> and hands
  the first 10 bytes to the host.
\<close>

definition date_to_pystring :: "memory \<Rightarrow> nat \<Rightarrow> fault + (pyobject option \<times> nat)" where
  "date_to_pystring mem p =
     (let (l, p') = unpack_int32_t mem p;
          l = l + 19000000;
          year = sint l sdiv 10000;
          month = (sint l smod 10000) sdiv 100;
          day = sint l smod 100;
          s = show_int_zero_padded 4 year @ ''-'' @ show_int_zero_padded 2 month
              @ ''-'' @ show_int_zero_padded 2 day
      in if 11 \<le> length s then Inl Scratch_Overflow
         else Inr (PyUnicode_FromStringAndSize (take 10 s), p'))"

text \<open>
  \<^verbatim>\<open>strptime\<close> is the C library's. The model follows the GNU implementation for the
  format \<^verbatim>\<open>%H:%M:%S\<close>: a number skips leading white space, takes one digit and then
  further digits while fewer than two are read and the value can still stay within its
  upper bound (23, 59 and 61); a colon of the format matches a colon of the input; what
  follows the seconds is not looked at.
\<close>

definition isspace :: "char \<Rightarrow> bool" where
  "isspace c \<longleftrightarrow> c = CHR '' '' \<or> byte_in 0x09 0x0D c"

definition isdigit :: "char \<Rightarrow> bool" where
  "isdigit c \<longleftrightarrow> byte_in 0x30 0x39 c"

definition digit_value :: "char \<Rightarrow> nat" where
  "digit_value c = of_char c - 48"

fun get_digits :: "nat \<Rightarrow> nat \<Rightarrow> nat \<Rightarrow> string \<Rightarrow> nat \<times> string" where
  "get_digits n to val [] = (val, [])"
| "get_digits n to val (c # rp) =
     (if 0 < n \<and> val * 10 \<le> to \<and> isdigit c
      then get_digits (n - 1) to (val * 10 + digit_value c) rp
      else (val, c # rp))"

definition get_number :: "nat \<Rightarrow> nat \<Rightarrow> nat \<Rightarrow> string \<Rightarrow> (nat \<times> string) option" where
  "get_number from to n rp =
     (case dropWhile isspace rp of
        [] \<Rightarrow> None
      | c # rp' \<Rightarrow>
          if \<not> isdigit c then None
          else let (val, rest) = get_digits (n - 1) to (digit_value c) rp'
               in if val < from \<or> to < val then None else Some (val, rest))"

definition match_char :: "char \<Rightarrow> string \<Rightarrow> string option" where
  "match_char ch rp = (case rp of [] \<Rightarrow> None | c # rp' \<Rightarrow> if c = ch then Some rp' else None)"

definition strptime_HMS :: "string \<Rightarrow> (int \<times> int \<times> int) option" where
  "strptime_HMS buffer =
     Option.bind (get_number 0 23 2 buffer) (\<lambda>(tm_hour, rp).
     Option.bind (match_char CHR '':'' rp) (\<lambda>rp.
     Option.bind (get_number 0 59 2 rp) (\<lambda>(tm_min, rp).
     Option.bind (match_char CHR '':'' rp) (\<lambda>rp.
     Option.bind (get_number 0 61 2 rp) (\<lambda>(tm_sec, rp).
     Some (int tm_hour, int tm_min, int tm_sec))))))"

definition BUFFER_SIZE :: nat where
  "BUFFER_SIZE = 8 * 1024"

text \<open>
  \<^verbatim>\<open>char_to_time\<close> copies \<^verbatim>\<open>column_length\<close> bytes into the static
  \<^verbatim>\<open>buffer[BUFFER_SIZE]\<close> and writes a zero byte at index \<^verbatim>\<open>column_length\<close>, which is
  behind the buffer from \<^const>\<open>BUFFER_SIZE\<close> on. When the parse succeeds the cursor moves
  by \<^verbatim>\<open>column_length\<close>; otherwise \<^const>\<open>char_to_pystring\<close> returns the raw text.
\<close>

definition char_to_time :: "memory \<Rightarrow> nat \<Rightarrow> 64 word \<Rightarrow> fault + (pyobject option \<times> nat)" where
  "char_to_time mem p column_length =
     (if BUFFER_SIZE \<le> unat column_length then Inl Scratch_Overflow
      else case strptime_HMS (c_string (read_bytes mem p (unat column_length))) of
             Some (tm_hour, tm_min, tm_sec) \<Rightarrow>
               Inr (giraffez_time_from_time tm_hour tm_min tm_sec 0, p + unat column_length)
           | None \<Rightarrow> char_to_pystring mem p column_length)"

text \<open>
  The pattern of the spec, in the spec's words: \<^verbatim>\<open>HH:MM:SS\<close>, that is two digits for the
  hour (00 to 23), a colon, two digits for the minute (00 to 59), a colon, two digits for
  the second (00 to 59), and nothing else. The decoder does not use it; the statements
  about time decode compare it with what \<^const>\<open>strptime_HMS\<close> accepts.
\<close>

definition two_digit_value :: "char \<Rightarrow> char \<Rightarrow> nat" where
  "two_digit_value tens ones = 10 * digit_value tens + digit_value ones"

fun spec_pattern_HH_MM_SS :: "string \<Rightarrow> bool" where
  "spec_pattern_HH_MM_SS [h1, h0, c1, m1, m0, c2, s1, s0] =
     (isdigit h1 \<and> isdigit h0 \<and> c1 = CHR '':'' \<and> isdigit m1 \<and> isdigit m0 \<and> c2 = CHR '':''
      \<and> isdigit s1 \<and> isdigit s0
      \<and> two_digit_value h1 h0 < 24 \<and> two_digit_value m1 m0 < 60 \<and> two_digit_value s1 s0 < 60)"
| "spec_pattern_HH_MM_SS _ = False"

section \<open>Decoding: packed decimals\<close>

text \<open>
  \<^verbatim>\<open>(int16_t)pow(10, column_scale)\<close>: the power is computed as a \<^verbatim>\<open>double\<close> and converted
  to the integer type of the column. C defines the conversion only when the value fits the
  type; the powers that fit are at most \<open>10^18\<close>, which a \<^verbatim>\<open>double\<close> holds exactly.
\<close>

definition pow10_as :: "nat \<Rightarrow> nat \<Rightarrow> fault + int" where
  "pow10_as bits column_scale =
     (if (10::int) ^ column_scale < 2 ^ (bits - 1) then Inr (10 ^ column_scale)
      else Inl Float_To_Int_Overflow)"

definition decimal8_to_pystring :: "memory \<Rightarrow> nat \<Rightarrow> 16 word \<Rightarrow> fault + (pyobject option \<times> nat)" where
  "decimal8_to_pystring mem p column_scale =
     (let (b, p') = unpack_int8_t mem p in
      if 0 < column_scale then
        (case pow10_as 8 (unat column_scale) of
           Inl f \<Rightarrow> Inl f
         | Inr scale \<Rightarrow>
             let x = sint (word_of_int \<bar>sint b sdiv scale\<bar> :: 8 word);
                 y = sint (word_of_int \<bar>sint b smod scale\<bar> :: 8 word)
             in Inr (pystring_from_cformat
                       ((if sint b < 0 then ''-'' else []) @ show_int x @ ''.''
                        @ show_int_zero_padded (unat column_scale) y), p'))
      else Inr (PyUnicode_FromFormat_d (sint b), p'))"

definition decimal16_to_pystring :: "memory \<Rightarrow> nat \<Rightarrow> 16 word \<Rightarrow> fault + (pyobject option \<times> nat)" where
  "decimal16_to_pystring mem p column_scale =
     (let (h, p') = unpack_int16_t mem p in
      if 0 < column_scale then
        (case pow10_as 16 (unat column_scale) of
           Inl f \<Rightarrow> Inl f
         | Inr scale \<Rightarrow>
             let x = sint (word_of_int \<bar>sint h sdiv scale\<bar> :: 16 word);
                 y = sint (word_of_int \<bar>sint h smod scale\<bar> :: 16 word)
             in Inr (pystring_from_cformat
                       ((if sint h < 0 then ''-'' else []) @ show_int x @ ''.''
                        @ show_int_zero_padded (unat column_scale) y), p'))
      else Inr (PyUnicode_FromFormat_d (sint h), p'))"

definition decimal32_to_pystring :: "memory \<Rightarrow> nat \<Rightarrow> 16 word \<Rightarrow> fault + (pyobject option \<times> nat)" where
  "decimal32_to_pystring mem p column_scale =
     (let (l, p') = unpack_int32_t mem p in
      if 0 < column_scale then
        (case pow10_as 32 (unat column_scale) of
           Inl f \<Rightarrow> Inl f
         | Inr scale \<Rightarrow>
             let x = sint (word_of_int \<bar>sint l sdiv scale\<bar> :: 32 word);
                 y = sint (word_of_int \<bar>sint l smod scale\<bar> :: 32 word)
             in Inr (pystring_from_cformat
                       ((if sint l < 0 then ''-'' else []) @ show_int x @ ''.''
                        @ show_int_zero_padded (unat column_scale) y), p'))
      else Inr (PyUnicode_FromFormat_d (sint l), p'))"

definition decimal64_to_pystring :: "memory \<Rightarrow> nat \<Rightarrow> 16 word \<Rightarrow> fault + (pyobject option \<times> nat)" where
  "decimal64_to_pystring mem p column_scale =
     (let (q, p') = unpack_int64_t mem p in
      if 0 < column_scale then
        (case pow10_as 64 (unat column_scale) of
           Inl f \<Rightarrow> Inl f
         | Inr scale \<Rightarrow>
             let x = sint (word_of_int \<bar>sint q sdiv scale\<bar> :: 64 word);
                 y = sint (word_of_int \<bar>sint q smod scale\<bar> :: 64 word)
             in Inr (pystring_from_cformat
                       ((if sint q < 0 then ''-'' else []) @ show_int x @ ''.''
                        @ show_int_zero_padded (unat column_scale) y), p'))
      else Inr (pystring_from_cformat (show_int (sint q)), p'))"

text \<open>
  The 16-byte decimal is computed with the host's unbounded integers: \<^verbatim>\<open>upper << 64\<close>,
  \<^verbatim>\<open>| lower\<close>, then Python's floor division \<^verbatim>\<open>//\<close> and remainder \<^verbatim>\<open>%\<close> (HOL's
  \<^const>\<open>divide\<close> and \<^const>\<open>modulo\<close> on \<^typ>\<open>int\<close>), formatted by the Python format
  \<^verbatim>\<open>%d.%0Nd\<close> with \<^verbatim>\<open>N = column_scale\<close>.
\<close>

definition decimal128_to_pystring :: "memory \<Rightarrow> nat \<Rightarrow> 16 word \<Rightarrow> fault + (pyobject option \<times> nat)" where
  "decimal128_to_pystring mem p column_scale =
     (let (Q, p1) = unpack_uint64_t mem p;
          (q, p2) = unpack_int64_t mem p1;
          upper = sint q;
          lower = uint Q;
          us = push_bit 64 upper;
          v = us OR lower
      in if 0 < column_scale then
           (let scale = (10::int) ^ unat column_scale;
                x = v div scale;
                y = v mod scale
            in Inr (Some (PyUnicode (show_int x @ ''.''
                                     @ show_int_zero_padded (unat column_scale) y)), p2))
         else Inr (Some (PyUnicode (show_int v)), p2))"

text \<open>
  Modelled from the spec: the width constants \<^verbatim>\<open>DECIMAL8\<close> to \<^verbatim>\<open>DECIMAL128\<close> come from
  \<^verbatim>\<open>convert.h\<close>, which is not among the sources; the spec gives the widths 1, 2, 4, 8 and
  16 bytes.
\<close>

definition DECIMAL8 :: "64 word" where "DECIMAL8 = 1"

definition DECIMAL16 :: "64 word" where "DECIMAL16 = 2"

definition DECIMAL32 :: "64 word" where "DECIMAL32 = 4"

definition DECIMAL64 :: "64 word" where "DECIMAL64 = 8"

definition DECIMAL128 :: "64 word" where "DECIMAL128 = 16"

definition decimal_to_pystring ::
  "memory \<Rightarrow> nat \<Rightarrow> 64 word \<Rightarrow> 16 word \<Rightarrow> fault + (pyobject option \<times> nat)" where
  "decimal_to_pystring mem p column_length column_scale =
     (if column_length = DECIMAL8 then decimal8_to_pystring mem p column_scale
      else if column_length = DECIMAL16 then decimal16_to_pystring mem p column_scale
      else if column_length = DECIMAL32 then decimal32_to_pystring mem p column_scale
      else if column_length = DECIMAL64 then decimal64_to_pystring mem p column_scale
      else if column_length = DECIMAL128 then decimal128_to_pystring mem p column_scale
      else Inr (None, p))"

text \<open>
  \<^verbatim>\<open>decimal_to_pyfloat\<close> passes the object returned by \<^const>\<open>decimal_to_pystring\<close> to
  the host's \<^verbatim>\<open>PyFloat_FromString\<close>, a parameter of the model (\<open>None\<close> when the host
  refuses its argument); the type \<open>'f\<close> stands for the host's floats. A \<^verbatim>\<open>NULL\<close> string is
  dereferenced there.
\<close>

definition decimal_to_pyfloat ::
  "(pyobject \<Rightarrow> 'f option) \<Rightarrow> memory \<Rightarrow> nat \<Rightarrow> 64 word \<Rightarrow> 16 word \<Rightarrow> fault + ('f option \<times> nat)" where
  "decimal_to_pyfloat PyFloat_FromString mem p column_length column_scale =
     (case decimal_to_pystring mem p column_length column_scale of
        Inl f \<Rightarrow> Inl f
      | Inr (Some s, p') \<Rightarrow> Inr (PyFloat_FromString s, p')
      | Inr (None, p') \<Rightarrow> Inl Null_Dereference)"

section \<open>Encoding\<close>

text \<open>
  An encoder writes through \<^verbatim>\<open>unsigned char **buf\<close> and adds to the running byte count
  \<^verbatim>\<open>uint16_t *len\<close>. It returns \<^verbatim>\<open>Py_None\<close>, or \<^verbatim>\<open>NULL\<close> for a failure; a failed host
  call also leaves its exception in the interpreter's error indicator, which the state
  carries along.
\<close>

record encoder =
  buf :: string
  len :: "16 word"
  exc :: "pyexc option"

text \<open>
  The host's integer parser for base 10, as \<^verbatim>\<open>PyLong_FromString\<close> with no end pointer:
  white space, an optional sign, at least one digit, white space, and nothing else. Between
  two digits a single underscore is allowed (as the host does from version 3.6 on); the
  number may not start or end with one. Digits outside ASCII, which the host accepts in a
  \<^verbatim>\<open>str\<close>, are left out.
\<close>

definition digits_value :: "string \<Rightarrow> nat" where
  "digits_value ds = foldl (\<lambda>n c. 10 * n + digit_value c) 0 ds"

fun scan_digits :: "char \<Rightarrow> string \<Rightarrow> string \<Rightarrow> (string \<times> string) option" where
  "scan_digits prev ds [] = (if prev = CHR ''_'' then None else Some (ds, []))"
| "scan_digits prev ds (c # scan) =
     (if isdigit c then scan_digits c (ds @ [c]) scan
      else if c = CHR ''_'' then (if prev = CHR ''_'' then None else scan_digits c ds scan)
      else if prev = CHR ''_'' then None
      else Some (ds, c # scan))"

definition PyLong_FromString :: "string \<Rightarrow> int option" where
  "PyLong_FromString str =
     (let s1 = dropWhile isspace str;
          (negative, s2) =
            (case s1 of
               [] \<Rightarrow> (False, s1)
             | c # r \<Rightarrow> if c = CHR ''+'' then (False, r)
                        else if c = CHR ''-'' then (True, r)
                        else (False, s1))
      in if take 1 s2 = ''_'' then None
         else case scan_digits CHR 0x00 [] s2 of
                None \<Rightarrow> None
              | Some (ds, rest) \<Rightarrow>
                  if ds = [] \<or> dropWhile isspace rest \<noteq> [] then None
                  else Some (if negative then - int (digits_value ds)
                             else int (digits_value ds)))"

text \<open>
  \<^verbatim>\<open>PyLong_AsLong\<close> and \<^verbatim>\<open>PyLong_AsLongLong\<close> (both 64 bits wide on the LP64 platforms
  the module is built for) return \<open>-1\<close> and set an exception for a \<^verbatim>\<open>NULL\<close> argument and
  for a value out of range.
\<close>

definition PyLong_AsLongLong :: "int option \<Rightarrow> 64 word \<times> pyexc option" where
  "PyLong_AsLongLong s =
     (case s of
        None \<Rightarrow> (- 1, Some SystemError)
      | Some v \<Rightarrow> if - (2 ^ 63) \<le> v \<and> v < 2 ^ 63 then (word_of_int v, None)
                  else (- 1, Some OverflowError))"

definition PyLong_AsLong :: "int option \<Rightarrow> 64 word \<times> pyexc option" where
  "PyLong_AsLong d = PyLong_AsLongLong d"

text \<open>\<^verbatim>\<open>PyLong_FromUnicodeObject\<close> parses the text of a \<^verbatim>\<open>str\<close> the same way.\<close>

definition PyLong_FromUnicodeObject :: "string \<Rightarrow> int option" where
  "PyLong_FromUnicodeObject u = PyLong_FromString u"

definition raise :: "pyexc option \<Rightarrow> pyexc option \<Rightarrow> pyexc option" where
  "raise e pending = (case e of None \<Rightarrow> pending | Some x \<Rightarrow> Some x)"

text \<open>
  \<^verbatim>\<open>pystring_to_char\<close>: the bytes of the text, then \<^verbatim>\<open>column_length - length\<close> spaces
  (the difference narrowed to \<^verbatim>\<open>int\<close>; none when that is negative), and \<^verbatim>\<open>column_length\<close>
  added to the count. A value that is
  neither text nor bytes, or text outside ASCII, leaves \<^verbatim>\<open>temp\<close> at \<^verbatim>\<open>NULL\<close>, which
  \<^verbatim>\<open>PyBytes_Size\<close> dereferences.
\<close>

definition pystring_to_char :: "pyobject \<Rightarrow> 16 word \<Rightarrow> encoder \<Rightarrow> fault + (pyobject option \<times> encoder)" where
  "pystring_to_char s column_length st =
     (let temp = (case s of
                    PyUnicode u \<Rightarrow> PyUnicode_AsASCIIString u
                  | PyBytes b \<Rightarrow> Some (PyBytes b)
                  | _ \<Rightarrow> None)
      in case temp of
           Some (PyBytes str) \<Rightarrow>
             let length = int (length str);
                 fill = sint (word_of_int (int (unat column_length) - length) :: 32 word)
             in Inr (Some PyNone,
                     st\<lparr>buf := buf st @ str @ replicate (nat fill) CHR 0x20,
                        len := len st + column_length\<rparr>)
         | _ \<Rightarrow> Inl Null_Dereference)"

text \<open>
  \<^verbatim>\<open>pydate_to_int\<close>: the hyphens of the text are removed, the rest is parsed as an integer,
  narrowed to \<^verbatim>\<open>int32_t\<close>, and written with the offset taken off. Only the first host
  call is checked.
\<close>

definition pydate_to_int :: "pyobject \<Rightarrow> 16 word \<Rightarrow> encoder \<Rightarrow> fault + (pyobject option \<times> encoder)" where
  "pydate_to_int item column_length st =
     (case item of
        PyUnicode u \<Rightarrow>
          let s = filter (\<lambda>c. c \<noteq> CHR ''-'') u;
              d = PyLong_FromUnicodeObject s;
              (v, e) = PyLong_AsLong d;
              l = (ucast v :: 32 word);
              l = l - 19000000
          in Inr (Some PyNone,
                  st\<lparr>buf := pack_int32_t (buf st) l,
                     len := len st + column_length,
                     exc := raise e (exc st)\<rparr>)
      | _ \<Rightarrow> Inr (None, st\<lparr>exc := Some TypeError\<rparr>))"

text \<open>
  \<^verbatim>\<open>PyUnicode_Split(item, ".", 1)\<close> splits at the first point only: one or two parts.
\<close>

definition PyUnicode_Split_dot :: "pyobject \<Rightarrow> string list option" where
  "PyUnicode_Split_dot item =
     (case item of
        PyUnicode u \<Rightarrow>
          (case dropWhile (\<lambda>c. c \<noteq> CHR ''.'') u of
             [] \<Rightarrow> Some [u]
           | _ # after \<Rightarrow> Some [takeWhile (\<lambda>c. c \<noteq> CHR ''.'') u, after])
      | _ \<Rightarrow> None)"

text \<open>
  \<^verbatim>\<open>pystring_to_decimal\<close> formats the two parts into the static \<^verbatim>\<open>dbuf[1024]\<close> with
  \<^verbatim>\<open>%s%0*s\<close>: the second part is padded on the left to \<^verbatim>\<open>column_scale\<close> characters. The
  padding character of \<^verbatim>\<open>%0*s\<close> differs between C libraries and is a parameter. The text
  is parsed by the host, the result is read as a 64-bit integer, and 8 bytes are written
  for every \<^verbatim>\<open>column_length\<close>; the dispatch on the width is commented out in the source.
  Neither host call is checked. The message printed in the third branch is not modelled.
\<close>

definition pystring_to_decimal ::
  "char \<Rightarrow> pyobject \<Rightarrow> 16 word \<Rightarrow> 16 word \<Rightarrow> encoder \<Rightarrow> fault + (pyobject option \<times> encoder)" where
  "pystring_to_decimal pad item column_length column_scale st =
     (case PyUnicode_Split_dot item of
        None \<Rightarrow> Inr (None, st\<lparr>exc := Some TypeError\<rparr>)
      | Some parts \<Rightarrow>
          let l = length parts;
              (x, y) = (if l = 1 then (c_string (parts ! 0), '''')
                        else if l = 2 then (c_string (parts ! 0), c_string (parts ! 1))
                        else ('''', ''''));
              formatted = x @ replicate (unat column_scale - length y) pad @ y
          in if 1024 \<le> length formatted then Inl Scratch_Overflow
             else let s = PyLong_FromString formatted;
                      (q, e) = PyLong_AsLongLong s
                  in Inr (Some PyNone,
                          st\<lparr>buf := pack_int64_t (buf st) q,
                             len := len st + column_length,
                             exc := raise e (exc st)\<rparr>))"

section \<open>Evaluation rules\<close>

lemma char_of_nat_bits:
  "char_of (n::nat) = Char (odd n) (odd (n div 2)) (odd (n div 4)) (odd (n div 8))
     (odd (n div 16)) (odd (n div 32)) (odd (n div 64)) (odd (n div 128))"
  by (simp add: char_of_def bit_iff_odd)

lemma show_nat_numeral:
  "show_nat (numeral k) =
     (if (numeral k :: nat) < 10 then [char_of (48 + (numeral k :: nat))]
      else show_nat (numeral k div 10) @ [char_of (48 + (numeral k :: nat) mod 10)])"
  by (subst show_nat.simps) simp

lemma show_nat_0: "show_nat 0 = ''0''"
  by (subst show_nat.simps) (simp add: char_of_nat_bits)

lemma show_nat_1: "show_nat 1 = ''1''" "show_nat (Suc 0) = ''1''"
  by (subst show_nat.simps, simp add: char_of_nat_bits)+

lemma replicate_numeral: "replicate (numeral k) x = x # replicate (pred_numeral k) x"
  by (simp add: numeral_eq_Suc)

lemmas show_eval = char_of_nat_bits show_nat_numeral show_nat_0 show_nat_1
  show_int_def show_int_zero_padded_def replicate_numeral

lemmas read_eval = read_bytes_def load_def le_nat_def upt_conv_Cons
  unpack_int8_t_def unpack_int16_t_def unpack_uint16_t_def unpack_int32_t_def
  unpack_int64_t_def unpack_uint64_t_def

lemmas write_eval = le_bytes_def upt_conv_Cons char_of_nat_bits pack_int32_t_def pack_int64_t_def

lemmas host_eval = PyUnicode_FromStringAndSize_def pystring_from_cformat_def
  PyUnicode_FromFormat_d_def PyUnicode_AsASCIIString_def byte_in_def cont_byte_def
  giraffez_time_from_time_def giraffez_date_from_datetime_def

lemmas parse_eval = PyLong_FromString_def PyLong_AsLongLong_def PyLong_AsLong_def
  PyLong_FromUnicodeObject_def isspace_def isdigit_def
  byte_in_def digits_value_def digit_value_def raise_def c_string_def

lemmas width_eval = DECIMAL8_def DECIMAL16_def DECIMAL32_def DECIMAL64_def DECIMAL128_def

lemmas c_div_eval = signed_divide_int_def signed_modulo_int_def

section \<open>The offset date\<close>

lemma le_bytes_171231: "le_bytes 4 171231 = [CHR 0xDF, CHR 0x9C, CHR 0x02, CHR 0x00]"
  by (simp add: write_eval)

lemma le_bytes_1171231: "le_bytes 4 1171231 = [CHR 0x1F, CHR 0xDF, CHR 0x11, CHR 0x00]"
  by (simp add: write_eval)

lemma unpack_171231:
  "unpack_int32_t (load [CHR 0xDF, CHR 0x9C, CHR 0x02, CHR 0x00]) 0 = (171231, 4)"
  by (simp add: read_eval)

lemma unpack_1171231:
  "unpack_int32_t (load [CHR 0x1F, CHR 0xDF, CHR 0x11, CHR 0x00]) 0 = (1171231, 4)"
  by (simp add: read_eval)

lemma pydate_to_int_2017:
  "pydate_to_int (PyUnicode ''2017-12-31'') 4 \<lparr>buf = [], len = 0, exc = None\<rparr> =
     Inr (Some PyNone, \<lparr>buf = [CHR 0x1F, CHR 0xDF, CHR 0x11, CHR 0x00], len = 4, exc = None\<rparr>)"
  by (simp add: pydate_to_int_def parse_eval write_eval)

text \<open>
  C4, as the spec states it: the encoded integer 171231 decodes to (2017, 12, 31) and the
  date (2017, 12, 31) encodes to 171231. The code adds 19000000, so that 171231 is the
  31st of December 1917, and the text of the date 2017-12-31 is not written as 171231.
\<close>

theorem date_171231_counterexample:
  "date_to_pydate (load (le_bytes 4 171231)) 0 = Inr (Some (GiraffezDate 1917 12 31 0 0 0 0), 4)
   \<and> date_to_pydate (load (le_bytes 4 171231)) 0 \<noteq> Inr (Some (GiraffezDate 2017 12 31 0 0 0 0), 4)
   \<and> pydate_to_int (PyUnicode ''2017-12-31'') 4 \<lparr>buf = [], len = 0, exc = None\<rparr>
       \<noteq> Inr (Some PyNone, \<lparr>buf = le_bytes 4 171231, len = 4, exc = None\<rparr>)"
  by (simp add: date_to_pydate_def le_bytes_171231 unpack_171231 c_div_eval host_eval
      pydate_to_int_2017)

text \<open>
  C4, amended: the encoded date integer 1171231 decodes to (2017, 12, 31) (and to the text
  2017-12-31), and encoding the date 2017-12-31 writes the four bytes of the integer 1171231.
\<close>

theorem date_1171231_round_trip:
  "date_to_pydate (load (le_bytes 4 1171231)) 0 = Inr (Some (GiraffezDate 2017 12 31 0 0 0 0), 4)
   \<and> date_to_pystring (load (le_bytes 4 1171231)) 0 = Inr (Some (PyUnicode ''2017-12-31''), 4)
   \<and> pydate_to_int (PyUnicode ''2017-12-31'') 4 \<lparr>buf = [], len = 0, exc = None\<rparr>
       = Inr (Some PyNone, \<lparr>buf = le_bytes 4 1171231, len = 4, exc = None\<rparr>)"
proof -
  have year: "show_int_zero_padded 4 2017 = ''2017''"
    by (simp add: show_eval)
  have month: "show_int_zero_padded 2 12 = ''12''"
    by (simp add: show_eval)
  have day: "show_int_zero_padded 2 31 = ''31''"
    by (simp add: show_eval)
  have "date_to_pydate (load (le_bytes 4 1171231)) 0
          = Inr (Some (GiraffezDate 2017 12 31 0 0 0 0), 4)"
    by (simp add: date_to_pydate_def le_bytes_1171231 unpack_1171231 c_div_eval host_eval)
  moreover have "date_to_pystring (load (le_bytes 4 1171231)) 0
          = Inr (Some (PyUnicode ''2017-12-31''), 4)"
    by (simp add: date_to_pystring_def le_bytes_1171231 unpack_1171231 c_div_eval
        year month day host_eval)
  moreover have "pydate_to_int (PyUnicode ''2017-12-31'') 4 \<lparr>buf = [], len = 0, exc = None\<rparr>
          = Inr (Some PyNone, \<lparr>buf = le_bytes 4 1171231, len = 4, exc = None\<rparr>)"
    by (simp add: pydate_to_int_2017 le_bytes_1171231)
  ultimately show ?thesis by simp
qed

section \<open>Reads do not look for the end of the buffer\<close>

text \<open>
  C5, as the spec states it: a fixed-width read of width \<open>w\<close> with fewer than \<open>w\<close> bytes left
  in the buffer fails with OutOfBounds and leaves the cursor where it was. A buffer of two
  bytes at address 0, cursor 0: the 4-byte integer read and the 4-byte \<^verbatim>\<open>Char\<close> read both
  return a value made of the two bytes and of the two bytes behind the buffer, and both
  move the cursor to 4.
\<close>

theorem read_past_end_counterexample:
  "length [CHR 0x01, CHR 0x02] - 0 < (4::nat)
   \<and> int_to_pylong (load [CHR 0x01, CHR 0x02]) 0 = Inr (Some (PyLong 513), 4)
   \<and> char_to_pystring (load [CHR 0x01, CHR 0x02]) 0 4
       = Inr (Some (PyUnicode [CHR 0x01, CHR 0x02, CHR 0x00, CHR 0x00]), 4)"
  by (simp add: int_to_pylong_def char_to_pystring_def read_eval host_eval)

text \<open>
  C5, amended: every fixed-width read of width \<open>w\<close> moves the cursor by exactly \<open>w\<close> bytes
  and ends without a fault, whatever lies at the cursor: the decoders receive no end of
  buffer, make no bounds check and report no OutOfBounds error. The length-prefixed read
  moves by 2 plus the length it finds.
\<close>

theorem fixed_width_reads_unchecked:
  "map_sum id snd (byte_to_pylong mem p) = Inr (p + 1)
   \<and> map_sum id snd (short_to_pylong mem p) = Inr (p + 2)
   \<and> map_sum id snd (int_to_pylong mem p) = Inr (p + 4)
   \<and> map_sum id snd (long_to_pylong mem p) = Inr (p + 8)
   \<and> map_sum id snd (date_to_pydate mem p) = Inr (p + 4)
   \<and> map_sum id snd (char_to_pystring mem p column_length) = Inr (p + unat column_length)
   \<and> map_sum id snd (vchar_to_pystring mem p)
       = Inr (p + 2 + le_nat (read_bytes mem p 2) mod 65536)"
  by (simp add: byte_to_pylong_def short_to_pylong_def int_to_pylong_def long_to_pylong_def
      date_to_pydate_def char_to_pystring_def vchar_to_pystring_def
      unpack_int8_t_def unpack_int16_t_def unpack_int32_t_def unpack_int64_t_def
      unpack_uint16_t_def Let_def unat_of_nat)

section \<open>Fixed-length text fields\<close>

lemma pystring_to_char_pads:
  assumes "\<forall>c \<in> set u. byte_in 0x00 0x7F c" and "length u \<le> unat column_length"
  shows "pystring_to_char (PyUnicode u) column_length st
           = Inr (Some PyNone,
                  st\<lparr>buf := buf st @ u @ replicate (unat column_length - length u) CHR 0x20,
                     len := len st + column_length\<rparr>)"
proof -
  define fill where "fill = int (unat column_length) - int (length u)"
  have "unat column_length < 2 ^ LENGTH(16)"
    by (rule unsigned_less)
  then have "unat column_length < 65536"
    by simp
  then have "- 2147483648 \<le> fill" "fill < 2147483648"
    using assms(2) unfolding fill_def by linarith+
  then have "- (2 ^ 31) \<le> fill" "fill < 2 ^ 31"
    by simp_all
  then have "signed_take_bit 31 fill = fill"
    by (rule signed_take_bit_int_eq_self)
  then have "sint (word_of_int fill :: 32 word) = fill"
    by (simp add: sint_sbintrunc')
  moreover have "nat fill = unat column_length - length u"
    by (simp add: fill_def nat_diff_distrib')
  ultimately show ?thesis
    using assms(1) by (simp add: pystring_to_char_def PyUnicode_AsASCIIString_def fill_def)
qed

lemma pystring_to_char_AB:
  "pystring_to_char (PyUnicode ''AB'') 5 \<lparr>buf = [], len = 0, exc = None\<rparr>
     = Inr (Some PyNone, \<lparr>buf = ''AB   '', len = 5, exc = None\<rparr>)"
  by (simp add: pystring_to_char_def PyUnicode_AsASCIIString_def byte_in_def replicate_numeral)

text \<open>
  C7: a text longer than the field is a FieldTooLong error. The code has no such check
  (its comment asks \<^verbatim>\<open>should check for max length?\<close>): the six bytes of \<^verbatim>\<open>ABCDEF\<close> are all
  written into the 5-byte field, the count grows by 5, and the call returns \<^verbatim>\<open>Py_None\<close>.
\<close>

theorem pystring_to_char_too_long:
  "pystring_to_char (PyUnicode ''ABCDEF'') 5 \<lparr>buf = [], len = 0, exc = None\<rparr>
     = Inr (Some PyNone, \<lparr>buf = ''ABCDEF'', len = 5, exc = None\<rparr>)"
  by (simp add: pystring_to_char_def PyUnicode_AsASCIIString_def byte_in_def)

section \<open>Decimal encode\<close>

lemma pystring_to_decimal_writes_8:
  assumes "pystring_to_decimal pad item column_length column_scale st = Inr (Some r, st')"
  shows "length (buf st') = length (buf st) + 8 \<and> len st' = len st + column_length"
  using assms
  by (auto simp: pystring_to_decimal_def pack_int64_t_def le_bytes_def Let_def
      split: option.splits if_splits prod.splits)

text \<open>
  C8: the number of bytes written equals \<^verbatim>\<open>byte_length\<close>. The code writes the parsed
  integer with \<^verbatim>\<open>pack_int64_t\<close> for every width (the dispatch on the width is commented
  out): for a 2-byte decimal column of scale 2 the text \<^verbatim>\<open>1.23\<close> is written as the 8 bytes
  of 123, and the count grows by 2.
\<close>

theorem pystring_to_decimal_width_2_writes_8:
  "pystring_to_decimal pad (PyUnicode ''1.23'') 2 2 \<lparr>buf = [], len = 0, exc = None\<rparr>
     = Inr (Some PyNone,
            \<lparr>buf = [CHR 0x7B, CHR 0x00, CHR 0x00, CHR 0x00, CHR 0x00, CHR 0x00, CHR 0x00, CHR 0x00],
             len = 2, exc = None\<rparr>)"
  by (simp add: pystring_to_decimal_def PyUnicode_Split_dot_def parse_eval write_eval)

text \<open>
  C9: a text with more than one decimal point is a MalformedDecimal error. The code splits
  at the first point only, so that its branch for more than two parts is never taken; the
  text \<^verbatim>\<open>12.3\<close> is refused by the host's parser, the unchecked \<^verbatim>\<open>NULL\<close> is read as \<open>-1\<close>,
  and the call writes the 8 bytes of \<open>-1\<close> and returns \<^verbatim>\<open>Py_None\<close>.
\<close>

theorem pystring_to_decimal_two_points:
  "pystring_to_decimal pad (PyUnicode ''1.2.3'') 8 0 \<lparr>buf = [], len = 0, exc = None\<rparr>
     = Inr (Some PyNone,
            \<lparr>buf = [CHR 0xFF, CHR 0xFF, CHR 0xFF, CHR 0xFF, CHR 0xFF, CHR 0xFF, CHR 0xFF, CHR 0xFF],
             len = 8, exc = Some SystemError\<rparr>)"
  by (simp add: pystring_to_decimal_def PyUnicode_Split_dot_def parse_eval write_eval
      unsigned_minus_1_eq_mask mask_eq_exp_minus_1)

section \<open>The 16-byte decimal\<close>

lemma decimal128_value:
  "push_bit 64 (sint q) OR uint Q = sint q * 2 ^ 64 + uint Q" for q Q :: "64 word"
proof -
  have "push_bit 64 (sint q) AND uint Q = 0"
    by (rule bit_eqI) (auto simp: bit_simps dest: bit_imp_le_length)
  then show ?thesis
    by (simp add: push_bit_eq_mult flip: disjunctive_add_eq_or)
qed

lemma sint_word_cat_64:
  "sint (word_cat q Q :: 128 word) = sint q * 2 ^ 64 + uint Q" for q Q :: "64 word"
proof -
  have low: "take_bit 64 (sint q) = uint q"
    by (simp add: uint_sint)
  have "(word_of_int (push_bit 64 (sint q)) :: 128 word) = word_of_int (push_bit 64 (uint q))"
    by (simp add: word_of_int_eq_iff take_bit_push_bit low bintr_uint)
  then have cat: "(word_cat q Q :: 128 word) = word_of_int (sint q * 2 ^ 64 + uint Q)"
    by (simp add: word_cat_eq push_bit_eq_mult)
  have fits: "sint (word_of_int x :: 128 word) = x" if "- (2 ^ 127) \<le> x" "x < 2 ^ 127" for x
    using that by (simp add: sint_sbintrunc' signed_take_bit_int_eq_self)
  have "- (2 ^ 127) \<le> sint q * 2 ^ 64 + uint Q" "sint q * 2 ^ 64 + uint Q < 2 ^ 127"
    using sint_ge[of q] sint_lt[of q] uint_lt2p[of Q] uint_ge_0[of Q] by (simp; linarith)+
  then show ?thesis
    unfolding cat by (rule fits)
qed

lemma decimal128_to_pystring_value:
  "decimal128_to_pystring mem p column_scale =
     (let v = sint (word_cat (word_of_nat (le_nat (read_bytes mem (p + 8) 8)) :: 64 word)
                             (word_of_nat (le_nat (read_bytes mem p 8)) :: 64 word) :: 128 word)
      in if 0 < column_scale
         then Inr (Some (PyUnicode (show_int (v div 10 ^ unat column_scale) @ ''.''
                 @ show_int_zero_padded (unat column_scale) (v mod 10 ^ unat column_scale))),
                   p + 16)
         else Inr (Some (PyUnicode (show_int v)), p + 16))"
  by (simp only: decimal128_to_pystring_def unpack_uint64_t_def unpack_int64_t_def Let_def
      prod.case decimal128_value sint_word_cat_64) simp

lemma negative_high_word:
  "sint q * 2 ^ 64 + uint Q < 0" if "sint q < 0" for q Q :: "64 word"
  using that uint_lt2p[of Q] by simp

lemma show_int_negative: "k < 0 \<Longrightarrow> show_int k = CHR ''-'' # show_nat (nat \<bar>k\<bar>)"
  by (simp add: show_int_def)

lemma unpack_low_minus_123:
  "unpack_uint64_t (load [CHR 0x85, CHR 0xFF, CHR 0xFF, CHR 0xFF, CHR 0xFF, CHR 0xFF, CHR 0xFF,
     CHR 0xFF, CHR 0xFF, CHR 0xFF, CHR 0xFF, CHR 0xFF, CHR 0xFF, CHR 0xFF, CHR 0xFF, CHR 0xFF]) 0
   = (- 123, 8)"
  by (simp add: read_eval)

lemma unpack_high_minus_1:
  "unpack_int64_t (load [CHR 0x85, CHR 0xFF, CHR 0xFF, CHR 0xFF, CHR 0xFF, CHR 0xFF, CHR 0xFF,
     CHR 0xFF, CHR 0xFF, CHR 0xFF, CHR 0xFF, CHR 0xFF, CHR 0xFF, CHR 0xFF, CHR 0xFF, CHR 0xFF]) 8
   = (- 1, 16)"
  by (simp add: read_eval)

lemma value_minus_123: "sint (- 1 :: 64 word) * 2 ^ 64 + uint (- 123 :: 64 word) = - 123"
  by simp

lemma show_minus_2_77:
  "show_int ((- 123) div 10 ^ unat (2 :: 16 word)) = ''-2''"
  "show_int_zero_padded (unat (2 :: 16 word)) ((- 123) mod 10 ^ unat (2 :: 16 word)) = ''77''"
  by (simp_all add: show_eval)

lemma decimal128_minus_123:
  "decimal128_to_pystring (load [CHR 0x85, CHR 0xFF, CHR 0xFF, CHR 0xFF, CHR 0xFF, CHR 0xFF,
     CHR 0xFF, CHR 0xFF, CHR 0xFF, CHR 0xFF, CHR 0xFF, CHR 0xFF, CHR 0xFF, CHR 0xFF, CHR 0xFF,
     CHR 0xFF]) 0 2 = Inr (Some (PyUnicode ''-2.77''), 16)"
  by (simp only: decimal128_to_pystring_def unpack_low_minus_123 unpack_high_minus_1 Let_def
      prod.case decimal128_value value_minus_123 show_minus_2_77) simp

lemma decimal16_minus_123:
  "decimal16_to_pystring (load [CHR 0x85, CHR 0xFF]) 0 2 = Inr (Some (PyUnicode ''-1.23''), 2)"
  by (simp add: decimal16_to_pystring_def read_eval pow10_as_def c_div_eval show_eval host_eval)

lemma decimal16_minus_5:
  "decimal16_to_pystring (load [CHR 0xFB, CHR 0xFF]) 0 2 = Inr (Some (PyUnicode ''-0.05''), 2)"
  by (simp add: decimal16_to_pystring_def read_eval pow10_as_def c_div_eval show_eval host_eval)

text \<open>
  C1: for every width, a raw value \<open>v\<close> with scale > 0 is rendered from \<open>|v| / 10^scale\<close> and
  \<open>|v| % 10^scale\<close>, with the sign in front. The 2-byte decoder does so: the raw values
  \<open>-123\<close> and \<open>-5\<close> with scale 2 give \<^verbatim>\<open>-1.23\<close> and \<^verbatim>\<open>-0.05\<close>. The 16-byte decoder
  divides the signed value with the host's floor division and remainder: the raw value
  \<open>-123\<close> (low word \<open>2^64 - 123\<close>, high word \<open>-1\<close>) with scale 2 gives \<^verbatim>\<open>-2.77\<close>.
\<close>

theorem decimal128_negative_scaled:
  "decimal_to_pystring (load [CHR 0x85, CHR 0xFF]) 0 2 2 = Inr (Some (PyUnicode ''-1.23''), 2)
   \<and> decimal_to_pystring (load [CHR 0xFB, CHR 0xFF]) 0 2 2 = Inr (Some (PyUnicode ''-0.05''), 2)
   \<and> decimal_to_pystring (load [CHR 0x85, CHR 0xFF, CHR 0xFF, CHR 0xFF, CHR 0xFF, CHR 0xFF,
         CHR 0xFF, CHR 0xFF, CHR 0xFF, CHR 0xFF, CHR 0xFF, CHR 0xFF, CHR 0xFF, CHR 0xFF, CHR 0xFF,
         CHR 0xFF]) 0 16 2 = Inr (Some (PyUnicode ''-2.77''), 16)"
  by (simp add: decimal_to_pystring_def width_eval decimal16_minus_123 decimal16_minus_5
      decimal128_minus_123)

lemma unpack_low_12345:
  "unpack_uint64_t (load [CHR 0x39, CHR 0x30, CHR 0x00, CHR 0x00, CHR 0x00, CHR 0x00, CHR 0x00,
     CHR 0x00, CHR 0x00, CHR 0x00, CHR 0x00, CHR 0x00, CHR 0x00, CHR 0x00, CHR 0x00, CHR 0x00]) 0
   = (12345, 8)"
  by (simp add: read_eval)

lemma unpack_high_0:
  "unpack_int64_t (load [CHR 0x39, CHR 0x30, CHR 0x00, CHR 0x00, CHR 0x00, CHR 0x00, CHR 0x00,
     CHR 0x00, CHR 0x00, CHR 0x00, CHR 0x00, CHR 0x00, CHR 0x00, CHR 0x00, CHR 0x00, CHR 0x00]) 8
   = (0, 16)"
  by (simp add: read_eval)

lemma show_12345: "show_int 12345 = ''12345''"
  by (simp add: show_eval)

lemma decimal128_12345:
  "decimal128_to_pystring (load [CHR 0x39, CHR 0x30, CHR 0x00, CHR 0x00, CHR 0x00, CHR 0x00,
     CHR 0x00, CHR 0x00, CHR 0x00, CHR 0x00, CHR 0x00, CHR 0x00, CHR 0x00, CHR 0x00, CHR 0x00,
     CHR 0x00]) 0 0 = Inr (Some (PyUnicode ''12345''), 16)"
proof -
  have "sint (0 :: 64 word) * 2 ^ 64 + uint (12345 :: 64 word) = 12345"
    by simp
  then show ?thesis
    by (simp only: decimal128_to_pystring_def unpack_low_12345 unpack_high_0 Let_def
        prod.case decimal128_value show_12345) simp
qed

text \<open>
  C2: the 16-byte decimal is read as an unsigned 8-byte low word at the cursor followed by a
  signed 8-byte high word, and its value is \<open>(high << 64) | low\<close>, the signed reading of the
  128-bit concatenation. With scale 0 the text is that value in decimal: \<^verbatim>\<open>12345\<close> for high
  word 0 and low word 12345. A negative high word makes the value negative: the text starts
  with a minus sign (for every scale), followed at scale 0 by the digits of the magnitude.
\<close>

theorem decimal128_composition:
  "(let Q = (word_of_nat (le_nat (read_bytes mem p 8)) :: 64 word);
        q = (word_of_nat (le_nat (read_bytes mem (p + 8) 8)) :: 64 word);
        v = sint (word_cat q Q :: 128 word)
    in v = sint q * 2 ^ 64 + uint Q
       \<and> decimal128_to_pystring mem p 0 = Inr (Some (PyUnicode (show_int v)), p + 16)
       \<and> (sint q < 0 \<longrightarrow>
            decimal128_to_pystring mem p 0
              = Inr (Some (PyUnicode (CHR ''-'' # show_nat (nat \<bar>v\<bar>))), p + 16))
       \<and> (sint q < 0 \<longrightarrow>
            (\<exists>t. decimal128_to_pystring mem p column_scale
                   = Inr (Some (PyUnicode (CHR ''-'' # t)), p + 16))))
   \<and> decimal128_to_pystring (load [CHR 0x39, CHR 0x30, CHR 0x00, CHR 0x00, CHR 0x00, CHR 0x00,
        CHR 0x00, CHR 0x00, CHR 0x00, CHR 0x00, CHR 0x00, CHR 0x00, CHR 0x00, CHR 0x00, CHR 0x00,
        CHR 0x00]) 0 0 = Inr (Some (PyUnicode ''12345''), 16)"
proof -
  define Q where "Q = (word_of_nat (le_nat (read_bytes mem p 8)) :: 64 word)"
  define q where "q = (word_of_nat (le_nat (read_bytes mem (p + 8) 8)) :: 64 word)"
  define v where "v = sint (word_cat q Q :: 128 word)"
  have v: "v = sint q * 2 ^ 64 + uint Q"
    by (simp add: v_def sint_word_cat_64)
  have dec: "decimal128_to_pystring mem p s =
      (if 0 < s
       then Inr (Some (PyUnicode (show_int (v div 10 ^ unat s) @ ''.''
               @ show_int_zero_padded (unat s) (v mod 10 ^ unat s))), p + 16)
       else Inr (Some (PyUnicode (show_int v)), p + 16))" for s
    unfolding decimal128_to_pystring_value v_def q_def Q_def Let_def ..
  have zero: "decimal128_to_pystring mem p 0 = Inr (Some (PyUnicode (show_int v)), p + 16)"
    by (simp add: dec)
  have minus: "decimal128_to_pystring mem p 0
        = Inr (Some (PyUnicode (CHR ''-'' # show_nat (nat \<bar>v\<bar>))), p + 16)"
    and lead: "\<exists>t. decimal128_to_pystring mem p column_scale
                   = Inr (Some (PyUnicode (CHR ''-'' # t)), p + 16)"
    if neg: "sint q < 0"
  proof -
    have "v < 0"
      unfolding v using neg by (rule negative_high_word)
    then show "decimal128_to_pystring mem p 0
        = Inr (Some (PyUnicode (CHR ''-'' # show_nat (nat \<bar>v\<bar>))), p + 16)"
      by (simp add: zero show_int_negative)
    have "v div 10 ^ unat column_scale < 0"
      using \<open>v < 0\<close> by (intro div_neg_pos_less0) simp_all
    then show "\<exists>t. decimal128_to_pystring mem p column_scale
                   = Inr (Some (PyUnicode (CHR ''-'' # t)), p + 16)"
      using \<open>v < 0\<close> by (simp add: dec show_int_negative)
  qed
  show ?thesis
    unfolding Let_def
    using v zero minus lead decimal128_12345
    by (simp add: v_def q_def Q_def)
qed

theorem decimal128_composition_witness:
  "sint (word_of_nat (le_nat (read_bytes (load [CHR 0x85, CHR 0xFF, CHR 0xFF, CHR 0xFF, CHR 0xFF,
      CHR 0xFF, CHR 0xFF, CHR 0xFF, CHR 0xFF, CHR 0xFF, CHR 0xFF, CHR 0xFF, CHR 0xFF, CHR 0xFF,
      CHR 0xFF, CHR 0xFF]) (0 + 8) 8)) :: 64 word) < 0
   \<and> (\<exists>t. decimal128_to_pystring (load [CHR 0x85, CHR 0xFF, CHR 0xFF, CHR 0xFF, CHR 0xFF,
      CHR 0xFF, CHR 0xFF, CHR 0xFF, CHR 0xFF, CHR 0xFF, CHR 0xFF, CHR 0xFF, CHR 0xFF, CHR 0xFF,
      CHR 0xFF, CHR 0xFF]) 0 2 = Inr (Some (PyUnicode (CHR ''-'' # t)), 0 + 16))"
proof -
  let ?M = "load [CHR 0x85, CHR 0xFF, CHR 0xFF, CHR 0xFF, CHR 0xFF,
      CHR 0xFF, CHR 0xFF, CHR 0xFF, CHR 0xFF, CHR 0xFF, CHR 0xFF, CHR 0xFF, CHR 0xFF, CHR 0xFF,
      CHR 0xFF, CHR 0xFF]"
  have high: "(word_of_nat (le_nat (read_bytes ?M (0 + 8) 8)) :: 64 word) = - 1"
    using unpack_high_minus_1 by (simp add: unpack_int64_t_def)
  have neg: "sint (word_of_nat (le_nat (read_bytes ?M (0 + 8) 8)) :: 64 word) < 0"
    unfolding high by simp
  from decimal128_composition [of ?M 0 2] neg show ?thesis
    unfolding Let_def by blast
qed

section \<open>Date decode\<close>

lemma sdiv_nonneg: "0 \<le> k \<Longrightarrow> 0 < l \<Longrightarrow> k sdiv l = k div l" for k l :: int
  by (cases "k = 0") (simp_all add: signed_divide_int_def)

lemma smod_nonneg: "0 \<le> k \<Longrightarrow> 0 < l \<Longrightarrow> k smod l = k mod l" for k l :: int
  by (cases "k = 0") (simp_all add: signed_modulo_int_def)

lemma int32_add_no_overflow:
  "sint (l + 19000000) = sint l + 19000000" if "sint l + 19000000 < 2 ^ 31" for l :: "32 word"
proof -
  have "- (2 ^ 31) \<le> sint l + 19000000"
    using sint_ge[of l] by simp
  with that have "signed_take_bit 31 (sint l + 19000000) = sint l + 19000000"
    by (simp add: signed_take_bit_int_eq_self)
  moreover have "sint (l + 19000000) = signed_take_bit 31 (sint l + 19000000)"
    using sint_word_ariths(1)[of l 19000000] by simp
  ultimately show ?thesis by simp
qed

text \<open>
  C3: date decode reads a signed 4-byte integer \<open>l\<close> and returns (year, month, day) with
  \<open>l' = l + 19000000\<close>, \<open>year = l' / 10000\<close>, \<open>month = (l' % 10000) / 100\<close>,
  \<open>day = l' % 100\<close>, for every \<open>l\<close>. The addition is that of \<^verbatim>\<open>int32_t\<close> and \<open>/\<close>, \<open>%\<close> are
  C's; the sum is the integer sum unless it passes \<open>2^31 - 1\<close>, and from \<open>l' \<ge> 0\<close> on the
  three fields are the decimal digit groups of \<open>l'\<close>.
\<close>

theorem date_to_pydate_fields:
  "(let l = (word_of_nat (le_nat (read_bytes mem p 4)) :: 32 word);
        l' = sint (l + 19000000);
        year = l' sdiv 10000;
        month = (l' smod 10000) sdiv 100;
        day = l' smod 100
    in date_to_pydate mem p = Inr (Some (GiraffezDate year month day 0 0 0 0), p + 4)
       \<and> (sint l + 19000000 < 2 ^ 31 \<longrightarrow> l' = sint l + 19000000)
       \<and> (0 \<le> l' \<longrightarrow> year = l' div 10000 \<and> month = l' mod 10000 div 100 \<and> day = l' mod 100
             \<and> year * 10000 + month * 100 + day = l'))"
proof -
  define l where "l = (word_of_nat (le_nat (read_bytes mem p 4)) :: 32 word)"
  define l' where "l' = sint (l + 19000000)"
  have run: "date_to_pydate mem p
      = Inr (Some (GiraffezDate (l' sdiv 10000) ((l' smod 10000) sdiv 100) (l' smod 100) 0 0 0 0),
             p + 4)"
    by (simp add: date_to_pydate_def unpack_int32_t_def giraffez_date_from_datetime_def
        l'_def l_def Let_def)
  have sum: "l' = sint l + 19000000" if "sint l + 19000000 < 2 ^ 31"
    unfolding l'_def using that by (rule int32_add_no_overflow)
  have groups: "l' sdiv 10000 = l' div 10000 \<and> (l' smod 10000) sdiv 100 = l' mod 10000 div 100
      \<and> l' smod 100 = l' mod 100
      \<and> l' sdiv 10000 * 10000 + (l' smod 10000) sdiv 100 * 100 + l' smod 100 = l'"
    if "0 \<le> l'"
  proof -
    have "l' mod 10000 mod 100 = l' mod 100"
      by (simp add: mod_mod_cancel)
    then have "l' mod 10000 div 100 * 100 + l' mod 100 = l' mod 10000"
      using div_mult_mod_eq[of "l' mod 10000" 100] by simp
    then have "l' div 10000 * 10000 + l' mod 10000 div 100 * 100 + l' mod 100 = l'"
      using div_mult_mod_eq[of l' 10000] by linarith
    moreover have "0 \<le> l' mod 10000"
      by simp
    ultimately show ?thesis
      using that by (simp add: sdiv_nonneg smod_nonneg)
  qed
  show ?thesis
    unfolding Let_def l_def[symmetric] l'_def[symmetric]
    using run sum groups by blast
qed

theorem date_to_pydate_fields_witness:
  "sint (word_of_nat (le_nat (read_bytes (load [CHR 0x1F, CHR 0xDF, CHR 0x11, CHR 0x00]) 0 4))
          :: 32 word) + 19000000 < 2 ^ 31
   \<and> 0 \<le> sint ((word_of_nat (le_nat (read_bytes (load [CHR 0x1F, CHR 0xDF, CHR 0x11, CHR 0x00])
          0 4)) :: 32 word) + 19000000)
   \<and> date_to_pydate (load [CHR 0x1F, CHR 0xDF, CHR 0x11, CHR 0x00]) 0
       = Inr (Some (GiraffezDate (20171231 div 10000) (20171231 mod 10000 div 100)
                (20171231 mod 100) 0 0 0 0), 0 + 4)"
proof -
  have l: "(word_of_nat (le_nat (read_bytes (load [CHR 0x1F, CHR 0xDF, CHR 0x11, CHR 0x00]) 0 4))
             :: 32 word) = 1171231"
    using unpack_1171231 by (simp add: unpack_int32_t_def)
  have l': "sint ((1171231 :: 32 word) + 19000000) = 20171231"
    by simp
  from date_to_pydate_fields [of "load [CHR 0x1F, CHR 0xDF, CHR 0x11, CHR 0x00]" 0]
  show ?thesis
    unfolding Let_def l l' by simp
qed

section \<open>Time decode\<close>

lemma small_length_not_negative:
  "\<not> sint column_length < 0" if "unat column_length < BUFFER_SIZE" for column_length :: "64 word"
proof -
  have "uint column_length < 8192"
    using that unfolding BUFFER_SIZE_def uint_nat by linarith
  then have upper: "uint column_length < 2 ^ 63"
    by simp
  have "- (2 ^ 63) \<le> (0::int)"
    by simp
  then have lower: "- (2 ^ 63) \<le> uint column_length"
    by (rule order_trans) simp
  have "signed_take_bit 63 (uint column_length) = uint column_length"
    using lower upper by (rule signed_take_bit_int_eq_self)
  then show ?thesis
    by (simp add: sint_uint)
qed

lemma utf8_valid_ascii: "\<forall>c \<in> set u. byte_in 0x00 0x7F c \<Longrightarrow> utf8_valid u"
  by (induction u) simp_all

lemma get_digits_0: "get_digits 0 to val rp = (val, rp)"
  by (cases rp) simp_all

lemma digit_char:
  assumes "d < 10"
  shows "isdigit (char_of (48 + d))" and "digit_value (char_of (48 + d)) = d"
    and "\<not> isspace (char_of (48 + d))" and "char_of (48 + d) \<noteq> CHR 0x00"
    and "byte_in 0x00 0x7F (char_of (48 + d))"
proof -
  have code: "of_char (char_of (48 + d)) = 48 + d"
    using assms by simp
  show "isdigit (char_of (48 + d))" "digit_value (char_of (48 + d)) = d"
    "\<not> isspace (char_of (48 + d))" "byte_in 0x00 0x7F (char_of (48 + d))"
    using assms by (simp_all add: isdigit_def digit_value_def isspace_def byte_in_def code
        flip: of_char_eq_iff [where 'a = nat])
  show "char_of (48 + d) \<noteq> CHR 0x00"
    using code by (auto simp flip: of_char_eq_iff [where 'a = nat])
qed

lemma isdigit_plain:
  assumes "isdigit c"
  shows "\<not> isspace c" and "c \<noteq> CHR 0x00" and "c \<noteq> CHR '':''"
  using assms
  by (auto simp: isdigit_def isspace_def byte_in_def simp flip: of_char_eq_iff [where 'a = nat])

lemma get_number_digit_pair:
  "get_number 0 to 2 (tens # ones # rp) = Some (two_digit_value tens ones, rp)"
  if "isdigit tens" "isdigit ones" "two_digit_value tens ones \<le> to"
proof -
  have "digit_value tens * 10 \<le> to"
    using that(3) by (simp add: two_digit_value_def)
  then show ?thesis
    using that
    by (simp add: get_number_def isdigit_plain(1) get_digits_0 two_digit_value_def mult.commute)
qed

lemma strptime_HMS_spec_pattern:
  "strptime_HMS (c_string t)
     = Some (int (two_digit_value (t ! 0) (t ! 1)), int (two_digit_value (t ! 3) (t ! 4)),
             int (two_digit_value (t ! 6) (t ! 7)))"
  if "spec_pattern_HH_MM_SS t"
  using that
proof (cases t rule: spec_pattern_HH_MM_SS.cases)
  case (1 h1 h0 c1 m1 m0 c2 s1 s0)
  with that have digits: "isdigit h1" "isdigit h0" "isdigit m1" "isdigit m0" "isdigit s1" "isdigit s0"
    and colons: "c1 = CHR '':''" "c2 = CHR '':''"
    and ranges: "two_digit_value h1 h0 \<le> 23" "two_digit_value m1 m0 \<le> 59"
      "two_digit_value s1 s0 \<le> 61"
    by simp_all
  have "c_string t = t"
    unfolding 1 colons c_string_def using digits by (simp add: isdigit_plain(2))
  then show ?thesis
    unfolding 1 colons using digits ranges
    by (simp add: strptime_HMS_def get_number_digit_pair match_char_def)
qed (use that in simp_all)

lemma strptime_HMS_no_leading_digit:
  "strptime_HMS s = None"
  if "case dropWhile isspace s of [] \<Rightarrow> True | c # rest \<Rightarrow> \<not> isdigit c"
proof -
  have "get_number 0 23 2 s = None"
  proof (cases "dropWhile isspace s")
    case Nil
    show ?thesis
      unfolding get_number_def Nil by simp
  next
    case (Cons c rest)
    with that have "\<not> isdigit c"
      by simp
    then show ?thesis
      unfolding get_number_def Cons by simp
  qed
  then show ?thesis
    by (simp add: strptime_HMS_def)
qed

lemma read_time_text:
  "read_bytes (load ''09:15:30'') 0 (unat (8 :: 64 word)) = ''09:15:30''"
  by (simp add: read_eval)

lemma read_garbage_text:
  "read_bytes (load ''garbage'') 0 (unat (7 :: 64 word)) = ''garbage''"
  by (simp add: read_eval)

lemma read_blank_time_text:
  "read_bytes (load '' 9:15:30'') 0 (unat (8 :: 64 word)) = '' 9:15:30''"
  by (simp add: read_eval)

lemma read_short_time_text:
  "read_bytes (load ''1:2:3'') 0 (unat (5 :: 64 word)) = ''1:2:3''"
  by (simp add: read_eval)

lemma strptime_examples:
  "strptime_HMS (c_string ''09:15:30'') = Some (9, 15, 30)"
  "strptime_HMS (c_string ''garbage'') = None"
  "strptime_HMS (c_string '' 9:15:30'') = Some (9, 15, 30)"
  "strptime_HMS (c_string ''1:2:3'') = Some (1, 2, 3)"
  by (simp_all add: strptime_HMS_def get_number_def match_char_def parse_eval)

lemma char_to_time_blank:
  "char_to_time (load '' 9:15:30'') 0 8 = Inr (Some (GiraffezTime 9 15 30 0), 8)"
  using read_blank_time_text strptime_examples(3)
  by (simp add: char_to_time_def BUFFER_SIZE_def giraffez_time_from_time_def)

lemma char_to_time_short:
  "char_to_time (load ''1:2:3'') 0 5 = Inr (Some (GiraffezTime 1 2 3 0), 5)"
  using read_short_time_text strptime_examples(4)
  by (simp add: char_to_time_def BUFFER_SIZE_def giraffez_time_from_time_def)

text \<open>
  C6, as the spec states it: a text that matches the pattern \<^verbatim>\<open>HH:MM:SS\<close> is decoded to
  the time, and every text that fails the pattern is returned as the raw text. The texts
  \<^verbatim>\<open> 9:15:30\<close> (a blank for the first digit) and \<^verbatim>\<open>1:2:3\<close> fail the pattern, and the
  decoder returns the times (9, 15, 30, 0) and (1, 2, 3, 0) for them, not the texts: the C
  library's \<^verbatim>\<open>strptime\<close> accepts more than the pattern.
\<close>

theorem char_to_time_outside_pattern_counterexample:
  "\<not> spec_pattern_HH_MM_SS (read_bytes (load '' 9:15:30'') 0 (unat (8 :: 64 word)))
   \<and> char_to_time (load '' 9:15:30'') 0 8 = Inr (Some (GiraffezTime 9 15 30 0), 8)
   \<and> char_to_time (load '' 9:15:30'') 0 8 \<noteq> Inr (Some (PyUnicode '' 9:15:30''), 8)
   \<and> \<not> spec_pattern_HH_MM_SS (read_bytes (load ''1:2:3'') 0 (unat (5 :: 64 word)))
   \<and> char_to_time (load ''1:2:3'') 0 5 = Inr (Some (GiraffezTime 1 2 3 0), 5)
   \<and> char_to_time (load ''1:2:3'') 0 5 \<noteq> Inr (Some (PyUnicode ''1:2:3''), 5)"
  unfolding read_blank_time_text read_short_time_text char_to_time_blank char_to_time_short
  by (simp add: isdigit_def byte_in_def)

text \<open>
  C6, amended: time decode reads \<^verbatim>\<open>byte_length\<close> bytes (fewer than the 8192 of the static
  buffer they are copied to) as text and parses it with \<^verbatim>\<open>strptime\<close> and \<^verbatim>\<open>%H:%M:%S\<close>.
  Whenever this parse succeeds with (hour, minute, second) the result is the time
  (hour, minute, second, 0); it succeeds for every text that matches the pattern
  \<^verbatim>\<open>HH:MM:SS\<close>, with the numbers the text shows (and for the further texts \<^verbatim>\<open>strptime\<close>
  accepts). Whenever the parse fails, as for every text whose first character after white
  space is not a digit, an ASCII text is returned as the raw text in a string, not as an
  error. The cursor moves by \<^verbatim>\<open>byte_length\<close> in both cases.
\<close>

theorem char_to_time_parse_or_raw_text:
  assumes "unat column_length < BUFFER_SIZE"
  shows "(let text = read_bytes mem p (unat column_length) in
          (spec_pattern_HH_MM_SS text \<longrightarrow>
             char_to_time mem p column_length
               = Inr (Some (GiraffezTime (int (two_digit_value (text ! 0) (text ! 1)))
                              (int (two_digit_value (text ! 3) (text ! 4)))
                              (int (two_digit_value (text ! 6) (text ! 7))) 0),
                      p + unat column_length))
        \<and> (strptime_HMS (c_string text) = Some (h, m, s) \<longrightarrow>
             char_to_time mem p column_length
               = Inr (Some (GiraffezTime h m s 0), p + unat column_length))
        \<and> (strptime_HMS (c_string text) = None \<and> (\<forall>c \<in> set text. byte_in 0x00 0x7F c) \<longrightarrow>
             char_to_time mem p column_length
               = Inr (Some (PyUnicode text), p + unat column_length))
        \<and> ((case dropWhile isspace (c_string text) of [] \<Rightarrow> True | c # rest \<Rightarrow> \<not> isdigit c)
             \<and> (\<forall>c \<in> set text. byte_in 0x00 0x7F c) \<longrightarrow>
             char_to_time mem p column_length
               = Inr (Some (PyUnicode text), p + unat column_length)))"
proof -
  define bytes where "bytes = read_bytes mem p (unat column_length)"
  have fits: "\<not> BUFFER_SIZE \<le> unat column_length"
    using assms by simp
  have parsed: "char_to_time mem p column_length
      = Inr (Some (GiraffezTime h' m' s' 0), p + unat column_length)"
    if "strptime_HMS (c_string bytes) = Some (h', m', s')" for h' m' s'
    using that fits by (simp add: char_to_time_def bytes_def giraffez_time_from_time_def)
  have pattern: "char_to_time mem p column_length
      = Inr (Some (GiraffezTime (int (two_digit_value (bytes ! 0) (bytes ! 1)))
                     (int (two_digit_value (bytes ! 3) (bytes ! 4)))
                     (int (two_digit_value (bytes ! 6) (bytes ! 7))) 0),
             p + unat column_length)"
    if "spec_pattern_HH_MM_SS bytes"
    using strptime_HMS_spec_pattern [OF that] by (rule parsed)
  have raw: "char_to_time mem p column_length
      = Inr (Some (PyUnicode bytes), p + unat column_length)"
    if "strptime_HMS (c_string bytes) = None" "\<forall>c \<in> set bytes. byte_in 0x00 0x7F c"
    using that fits small_length_not_negative [OF assms] utf8_valid_ascii [of bytes]
    by (simp add: char_to_time_def char_to_pystring_def PyUnicode_FromStringAndSize_def bytes_def)
  have no_digit: "char_to_time mem p column_length
      = Inr (Some (PyUnicode bytes), p + unat column_length)"
    if "case dropWhile isspace (c_string bytes) of [] \<Rightarrow> True | c # rest \<Rightarrow> \<not> isdigit c"
      "\<forall>c \<in> set bytes. byte_in 0x00 0x7F c"
    using strptime_HMS_no_leading_digit [OF that(1)] that(2) by (rule raw)
  show ?thesis
    unfolding Let_def bytes_def [symmetric]
    using parsed pattern raw no_digit by blast
qed

theorem char_to_time_parse_or_raw_text_witness:
  "unat (8 :: 64 word) < BUFFER_SIZE \<and> unat (7 :: 64 word) < BUFFER_SIZE
   \<and> spec_pattern_HH_MM_SS (read_bytes (load ''09:15:30'') 0 (unat (8 :: 64 word)))
   \<and> strptime_HMS (c_string (read_bytes (load ''09:15:30'') 0 (unat (8 :: 64 word))))
       = Some (9, 15, 30)
   \<and> char_to_time (load ''09:15:30'') 0 8 = Inr (Some (GiraffezTime 9 15 30 0), 8)
   \<and> strptime_HMS (c_string (read_bytes (load ''garbage'') 0 (unat (7 :: 64 word)))) = None
   \<and> char_to_time (load ''garbage'') 0 7 = Inr (Some (PyUnicode ''garbage''), 7)"
proof -
  have small: "unat (8 :: 64 word) < BUFFER_SIZE" "unat (7 :: 64 word) < BUFFER_SIZE"
    by (simp_all add: BUFFER_SIZE_def)
  have ascii: "\<forall>c \<in> set ''garbage''. byte_in 0x00 0x7F c"
    by (simp add: byte_in_def)
  have first: "case dropWhile isspace (c_string ''garbage'') of
      [] \<Rightarrow> True | c # rest \<Rightarrow> \<not> isdigit c"
    by (simp add: parse_eval)
  have matches: "spec_pattern_HH_MM_SS ''09:15:30''"
    by (simp add: isdigit_def byte_in_def two_digit_value_def digit_value_def)
  have fields: "int (two_digit_value (''09:15:30'' ! 0) (''09:15:30'' ! 1)) = 9"
    "int (two_digit_value (''09:15:30'' ! 3) (''09:15:30'' ! 4)) = 15"
    "int (two_digit_value (''09:15:30'' ! 6) (''09:15:30'' ! 7)) = 30"
    by (simp_all add: two_digit_value_def digit_value_def)
  have "char_to_time (load ''09:15:30'') 0 8
      = Inr (Some (GiraffezTime 9 15 30 0), 0 + unat (8 :: 64 word))"
    using char_to_time_parse_or_raw_text [OF small(1), of "load ''09:15:30''" 0 0 0 0] matches
    unfolding Let_def read_time_text fields by blast
  then have time: "char_to_time (load ''09:15:30'') 0 8 = Inr (Some (GiraffezTime 9 15 30 0), 8)"
    by simp
  have "char_to_time (load ''garbage'') 0 7
      = Inr (Some (PyUnicode ''garbage''), 0 + unat (7 :: 64 word))"
    using char_to_time_parse_or_raw_text [OF small(2), of "load ''garbage''" 0 0 0 0]
      first ascii
    unfolding Let_def read_garbage_text by blast
  then have fallback: "char_to_time (load ''garbage'') 0 7 = Inr (Some (PyUnicode ''garbage''), 7)"
    by simp
  show ?thesis
    unfolding read_time_text read_garbage_text
    using small time fallback matches strptime_examples(1,2) by simp
qed

section \<open>Formatted text is ASCII\<close>

lemma show_nat_ascii: "\<forall>c \<in> set (show_nat n). byte_in 0x00 0x7F c"
proof (induction n rule: show_nat.induct)
  case (1 n)
  show ?case
  proof (cases "n < 10")
    case True
    then show ?thesis
      by (simp add: show_nat.simps [of n] digit_char(5))
  next
    case False
    have "n mod 10 < 10"
      by simp
    with False 1 show ?thesis
      by (simp add: show_nat.simps [of n] digit_char(5))
  qed
qed

lemma show_int_ascii: "\<forall>c \<in> set (show_int k). byte_in 0x00 0x7F c"
  using show_nat_ascii by (simp add: show_int_def byte_in_def)

lemma show_int_zero_padded_ascii: "\<forall>c \<in> set (show_int_zero_padded w k). byte_in 0x00 0x7F c"
  using show_nat_ascii [of "nat \<bar>k\<bar>"]
  by (auto simp: show_int_zero_padded_def Let_def byte_in_def)

lemma sign_and_point_ascii: "byte_in 0x00 0x7F CHR ''-''" "byte_in 0x00 0x7F CHR ''.''"
  by (simp_all add: byte_in_def)

lemma pystring_from_cformat_ascii:
  "pystring_from_cformat s = Some (PyUnicode s)" if "\<forall>c \<in> set s. byte_in 0x00 0x7F c"
  using that utf8_valid_ascii [of s]
  by (simp add: pystring_from_cformat_def PyUnicode_FromStringAndSize_def)

lemmas formatted_ascii = pystring_from_cformat_ascii ball_Un show_int_ascii
  show_int_zero_padded_ascii sign_and_point_ascii

section \<open>Scaled rendering\<close>

text \<open>
  What the decoders of 1, 2, 4 and 8 bytes do with a scale > 0 whose power of ten fits the
  column's integer type: sign, \<open>|v| / 10^scale\<close>, a point, and \<open>|v| % 10^scale\<close> padded
  with zeros to exactly \<open>scale\<close> digits. The 16-byte decoder gives the same text for a value
  that is not negative.
\<close>

lemma abs_sdiv: "\<bar>v sdiv S\<bar> = \<bar>v\<bar> div S" if "0 < S" for v S :: int
proof -
  have "0 \<le> \<bar>v\<bar> div S"
    using that by (simp add: pos_imp_zdiv_nonneg_iff)
  then show ?thesis
    using that by (cases "v = 0") (simp_all add: signed_divide_int_def abs_mult)
qed

lemma abs_smod: "\<bar>v smod S\<bar> = \<bar>v\<bar> mod S" if "0 < S" for v S :: int
proof -
  have "0 \<le> \<bar>v\<bar> mod S"
    using that by simp
  then show ?thesis
    using that by (cases "v = 0") (simp_all add: signed_modulo_int_def abs_mult)
qed

lemma sint_small:
  "sint (word_of_int k :: 'a::len word) = k" if "0 \<le> k" "k < 2 ^ (LENGTH('a) - 1)"
proof -
  have "- (2 ^ (LENGTH('a) - 1)) \<le> k"
    using that(1) by (rule order_trans [rotated]) simp
  then have "signed_take_bit (LENGTH('a) - 1) k = k"
    using that(2) by (rule signed_take_bit_int_eq_self)
  then show ?thesis
    by (simp add: sint_sbintrunc')
qed

lemma scaled_fields:
  fixes w :: "'a::len word"
  assumes "10 \<le> S" "S < 2 ^ (LENGTH('a) - 1)"
  shows "sint (word_of_int \<bar>sint w sdiv S\<bar> :: 'a word) = \<bar>sint w\<bar> div S"
    and "sint (word_of_int \<bar>sint w smod S\<bar> :: 'a word) = \<bar>sint w\<bar> mod S"
proof -
  have pos: "0 < S"
    using assms(1) by simp
  have "\<bar>sint w\<bar> \<le> 2 ^ (LENGTH('a) - 1)"
    using sint_ge [of w] sint_lt [of w] by simp
  then have "\<bar>sint w\<bar> div S \<le> 2 ^ (LENGTH('a) - 1) div S"
    by (rule zdiv_mono1) (rule pos)
  also have "\<dots> < 2 ^ (LENGTH('a) - 1)"
    using assms(1) by (intro int_div_less_self) simp_all
  finally have "\<bar>sint w\<bar> div S < 2 ^ (LENGTH('a) - 1)" .
  moreover have "0 \<le> \<bar>sint w\<bar> div S"
    using pos by (simp add: pos_imp_zdiv_nonneg_iff)
  ultimately show "sint (word_of_int \<bar>sint w sdiv S\<bar> :: 'a word) = \<bar>sint w\<bar> div S"
    unfolding abs_sdiv [OF pos] by (intro sint_small)
  have "\<bar>sint w\<bar> mod S < S"
    using pos by simp
  with assms(2) have "\<bar>sint w\<bar> mod S < 2 ^ (LENGTH('a) - 1)"
    by simp
  moreover have "0 \<le> \<bar>sint w\<bar> mod S"
    using pos by simp
  ultimately show "sint (word_of_int \<bar>sint w smod S\<bar> :: 'a word) = \<bar>sint w\<bar> mod S"
    unfolding abs_smod [OF pos] by (intro sint_small)
qed

lemma length_show_nat: "length (show_nat n) \<le> w" if "n < 10 ^ w" "0 < w"
  using that
proof (induction n arbitrary: w rule: show_nat.induct)
  case (1 n)
  show ?case
  proof (cases "n < 10")
    case True
    with 1 show ?thesis
      by (simp add: show_nat.simps [of n])
  next
    case False
    obtain w' where w: "w = Suc w'"
      using 1(3) by (cases w) simp_all
    have "0 < w'"
      using False 1(2) w by (cases w') simp_all
    moreover have "n div 10 < 10 ^ w'"
      using 1(2) w by (simp add: div_less_iff_less_mult mult.commute)
    ultimately have "length (show_nat (n div 10)) \<le> w'"
      using 1(1) [OF False] by simp
    with False w show ?thesis
      by (simp add: show_nat.simps [of n])
  qed
qed

lemma length_zero_padded:
  "length (show_int_zero_padded w y) = w" if "0 \<le> y" "y < 10 ^ w" "0 < w"
proof -
  have "nat y < 10 ^ w"
    using that(1,2) by (simp add: nat_less_iff)
  then have "length (show_nat (nat y)) \<le> w"
    using that(3) by (rule length_show_nat)
  then show ?thesis
    using that(1) by (simp add: show_int_zero_padded_def Let_def)
qed

lemma decimal8_to_pystring_scaled:
  assumes "0 < column_scale" and "(10::int) ^ unat column_scale < 2 ^ 7"
  shows "(let v = sint (fst (unpack_int8_t mem p));
              x = \<bar>v\<bar> div 10 ^ unat column_scale;
              y = \<bar>v\<bar> mod 10 ^ unat column_scale
          in decimal8_to_pystring mem p column_scale
               = Inr (Some (PyUnicode ((if v < 0 then ''-'' else []) @ show_int x @ ''.''
                       @ show_int_zero_padded (unat column_scale) y)), p + 1)
             \<and> length (show_int_zero_padded (unat column_scale) y) = unat column_scale)"
proof -
  have scale: "0 < unat column_scale"
    using assms(1) by (simp add: word_greater_zero_iff unat_gt_0)
  then have ten: "(10::int) \<le> 10 ^ unat column_scale"
    using self_le_power [of "10::int" "unat column_scale"] by simp
  have fits: "(10::int) ^ unat column_scale < 2 ^ (LENGTH(8) - 1)"
    using assms(2) by simp
  note fields = scaled_fields [OF ten fits]
  have "length (show_int_zero_padded (unat column_scale)
      (\<bar>sint (fst (unpack_int8_t mem p))\<bar> mod 10 ^ unat column_scale)) = unat column_scale"
    using scale by (intro length_zero_padded) simp_all
  then show ?thesis
    using assms
    by (simp add: decimal8_to_pystring_def pow10_as_def Let_def split_beta fields
        formatted_ascii unpack_int8_t_def)
qed

lemma decimal16_to_pystring_scaled:
  assumes "0 < column_scale" and "(10::int) ^ unat column_scale < 2 ^ 15"
  shows "(let v = sint (fst (unpack_int16_t mem p));
              x = \<bar>v\<bar> div 10 ^ unat column_scale;
              y = \<bar>v\<bar> mod 10 ^ unat column_scale
          in decimal16_to_pystring mem p column_scale
               = Inr (Some (PyUnicode ((if v < 0 then ''-'' else []) @ show_int x @ ''.''
                       @ show_int_zero_padded (unat column_scale) y)), p + 2)
             \<and> length (show_int_zero_padded (unat column_scale) y) = unat column_scale)"
proof -
  have scale: "0 < unat column_scale"
    using assms(1) by (simp add: word_greater_zero_iff unat_gt_0)
  then have ten: "(10::int) \<le> 10 ^ unat column_scale"
    using self_le_power [of "10::int" "unat column_scale"] by simp
  have fits: "(10::int) ^ unat column_scale < 2 ^ (LENGTH(16) - 1)"
    using assms(2) by simp
  note fields = scaled_fields [OF ten fits]
  have "length (show_int_zero_padded (unat column_scale)
      (\<bar>sint (fst (unpack_int16_t mem p))\<bar> mod 10 ^ unat column_scale)) = unat column_scale"
    using scale by (intro length_zero_padded) simp_all
  then show ?thesis
    using assms
    by (simp add: decimal16_to_pystring_def pow10_as_def Let_def split_beta fields
        formatted_ascii unpack_int16_t_def)
qed

lemma decimal32_to_pystring_scaled:
  assumes "0 < column_scale" and "(10::int) ^ unat column_scale < 2 ^ 31"
  shows "(let v = sint (fst (unpack_int32_t mem p));
              x = \<bar>v\<bar> div 10 ^ unat column_scale;
              y = \<bar>v\<bar> mod 10 ^ unat column_scale
          in decimal32_to_pystring mem p column_scale
               = Inr (Some (PyUnicode ((if v < 0 then ''-'' else []) @ show_int x @ ''.''
                       @ show_int_zero_padded (unat column_scale) y)), p + 4)
             \<and> length (show_int_zero_padded (unat column_scale) y) = unat column_scale)"
proof -
  have scale: "0 < unat column_scale"
    using assms(1) by (simp add: word_greater_zero_iff unat_gt_0)
  then have ten: "(10::int) \<le> 10 ^ unat column_scale"
    using self_le_power [of "10::int" "unat column_scale"] by simp
  have fits: "(10::int) ^ unat column_scale < 2 ^ (LENGTH(32) - 1)"
    using assms(2) by simp
  note fields = scaled_fields [OF ten fits]
  have "length (show_int_zero_padded (unat column_scale)
      (\<bar>sint (fst (unpack_int32_t mem p))\<bar> mod 10 ^ unat column_scale)) = unat column_scale"
    using scale by (intro length_zero_padded) simp_all
  then show ?thesis
    using assms
    by (simp add: decimal32_to_pystring_def pow10_as_def Let_def split_beta fields
        formatted_ascii unpack_int32_t_def)
qed

lemma decimal64_to_pystring_scaled:
  assumes "0 < column_scale" and "(10::int) ^ unat column_scale < 2 ^ 63"
  shows "(let v = sint (fst (unpack_int64_t mem p));
              x = \<bar>v\<bar> div 10 ^ unat column_scale;
              y = \<bar>v\<bar> mod 10 ^ unat column_scale
          in decimal64_to_pystring mem p column_scale
               = Inr (Some (PyUnicode ((if v < 0 then ''-'' else []) @ show_int x @ ''.''
                       @ show_int_zero_padded (unat column_scale) y)), p + 8)
             \<and> length (show_int_zero_padded (unat column_scale) y) = unat column_scale)"
proof -
  have scale: "0 < unat column_scale"
    using assms(1) by (simp add: word_greater_zero_iff unat_gt_0)
  then have ten: "(10::int) \<le> 10 ^ unat column_scale"
    using self_le_power [of "10::int" "unat column_scale"] by simp
  have fits: "(10::int) ^ unat column_scale < 2 ^ (LENGTH(64) - 1)"
    using assms(2) by simp
  note fields = scaled_fields [OF ten fits]
  have "length (show_int_zero_padded (unat column_scale)
      (\<bar>sint (fst (unpack_int64_t mem p))\<bar> mod 10 ^ unat column_scale)) = unat column_scale"
    using scale by (intro length_zero_padded) simp_all
  then show ?thesis
    using assms
    by (simp add: decimal64_to_pystring_def pow10_as_def Let_def split_beta fields
        formatted_ascii unpack_int64_t_def)
qed

lemma decimal128_to_pystring_nonneg:
  assumes "0 < column_scale"
    and "0 \<le> sint (word_cat (word_of_nat (le_nat (read_bytes mem (p + 8) 8)) :: 64 word)
                     (word_of_nat (le_nat (read_bytes mem p 8)) :: 64 word) :: 128 word)"
  shows "(let v = sint (word_cat (word_of_nat (le_nat (read_bytes mem (p + 8) 8)) :: 64 word)
                     (word_of_nat (le_nat (read_bytes mem p 8)) :: 64 word) :: 128 word);
              x = \<bar>v\<bar> div 10 ^ unat column_scale;
              y = \<bar>v\<bar> mod 10 ^ unat column_scale
          in decimal128_to_pystring mem p column_scale
               = Inr (Some (PyUnicode ((if v < 0 then ''-'' else []) @ show_int x @ ''.''
                       @ show_int_zero_padded (unat column_scale) y)), p + 16)
             \<and> length (show_int_zero_padded (unat column_scale) y) = unat column_scale)"
proof -
  define v where "v = sint (word_cat (word_of_nat (le_nat (read_bytes mem (p + 8) 8)) :: 64 word)
                     (word_of_nat (le_nat (read_bytes mem p 8)) :: 64 word) :: 128 word)"
  have scale: "0 < unat column_scale"
    using assms(1) by (simp add: word_greater_zero_iff unat_gt_0)
  have "length (show_int_zero_padded (unat column_scale) (v mod 10 ^ unat column_scale))
      = unat column_scale"
    using scale by (intro length_zero_padded) simp_all
  then show ?thesis
    using assms unfolding decimal128_to_pystring_value v_def [symmetric] Let_def
    by simp
qed

section \<open>Decimal to float\<close>

lemma decimal8_string_or_fault:
  "(\<exists>f. decimal8_to_pystring mem p s = Inl f)
   \<or> (\<exists>t p'. decimal8_to_pystring mem p s = Inr (Some (PyUnicode t), p'))"
  by (cases "pow10_as 8 (unat s)")
    (simp_all add: decimal8_to_pystring_def Let_def split_beta formatted_ascii
      PyUnicode_FromFormat_d_def)

lemma decimal16_string_or_fault:
  "(\<exists>f. decimal16_to_pystring mem p s = Inl f)
   \<or> (\<exists>t p'. decimal16_to_pystring mem p s = Inr (Some (PyUnicode t), p'))"
  by (cases "pow10_as 16 (unat s)")
    (simp_all add: decimal16_to_pystring_def Let_def split_beta formatted_ascii
      PyUnicode_FromFormat_d_def)

lemma decimal32_string_or_fault:
  "(\<exists>f. decimal32_to_pystring mem p s = Inl f)
   \<or> (\<exists>t p'. decimal32_to_pystring mem p s = Inr (Some (PyUnicode t), p'))"
  by (cases "pow10_as 32 (unat s)")
    (simp_all add: decimal32_to_pystring_def Let_def split_beta formatted_ascii
      PyUnicode_FromFormat_d_def)

lemma decimal64_string_or_fault:
  "(\<exists>f. decimal64_to_pystring mem p s = Inl f)
   \<or> (\<exists>t p'. decimal64_to_pystring mem p s = Inr (Some (PyUnicode t), p'))"
  by (cases "pow10_as 64 (unat s)")
    (simp_all add: decimal64_to_pystring_def Let_def split_beta formatted_ascii)

lemma decimal128_string:
  "\<exists>t p'. decimal128_to_pystring mem p s = Inr (Some (PyUnicode t), p')"
  by (simp add: decimal128_to_pystring_value Let_def)

lemma decimal_string_or_fault:
  "(\<exists>f. decimal_to_pystring mem p column_length s = Inl f)
   \<or> (\<exists>t p'. decimal_to_pystring mem p column_length s = Inr (Some (PyUnicode t), p'))"
  if "column_length \<in> {1, 2, 4, 8, 16}"
  using that decimal8_string_or_fault [of mem p s] decimal16_string_or_fault [of mem p s]
    decimal32_string_or_fault [of mem p s] decimal64_string_or_fault [of mem p s]
    decimal128_string [of mem p s]
  by (auto simp: decimal_to_pystring_def width_eval)

text \<open>
  C10: for every supported width (1, 2, 4, 8 and 16 bytes) and every scale, the float decode
  is the string decode followed by the host's parse of that exact string: the string decode
  yields a text \<open>t\<close> and a cursor, and the float decode yields the parse of \<open>t\<close> and the
  same cursor. Where the string decode stops with a fault (a power of ten that the column's
  integer type cannot hold), the float decode stops with the same fault.
\<close>

theorem decimal_to_pyfloat_parses_string:
  assumes "column_length \<in> {1, 2, 4, 8, 16}"
  shows "(\<exists>f. decimal_to_pystring mem p column_length column_scale = Inl f
              \<and> decimal_to_pyfloat PyFloat_FromString mem p column_length column_scale = Inl f)
       \<or> (\<exists>t p'. decimal_to_pystring mem p column_length column_scale
                     = Inr (Some (PyUnicode t), p')
              \<and> decimal_to_pyfloat PyFloat_FromString mem p column_length column_scale
                     = Inr (PyFloat_FromString (PyUnicode t), p'))"
  using decimal_string_or_fault [OF assms, of mem p column_scale]
  by (auto simp: decimal_to_pyfloat_def)

theorem decimal_to_pyfloat_parses_string_witness:
  "(2 :: 64 word) \<in> {1, 2, 4, 8, 16}
   \<and> decimal_to_pystring (load [CHR 0x85, CHR 0xFF]) 0 2 2 = Inr (Some (PyUnicode ''-1.23''), 2)
   \<and> decimal_to_pyfloat Some (load [CHR 0x85, CHR 0xFF]) 0 2 2
       = Inr (Some (PyUnicode ''-1.23''), 2)"
proof -
  have width: "(2 :: 64 word) \<in> {1, 2, 4, 8, 16}"
    by simp
  have str: "decimal_to_pystring (load [CHR 0x85, CHR 0xFF]) 0 2 2
      = Inr (Some (PyUnicode ''-1.23''), 2)"
    by (simp add: decimal_to_pystring_def width_eval decimal16_minus_123)
  from decimal_to_pyfloat_parses_string [OF width, of "load [CHR 0x85, CHR 0xFF]" 0 2 Some]
  have "decimal_to_pyfloat Some (load [CHR 0x85, CHR 0xFF]) 0 2 2
      = Inr (Some (PyUnicode ''-1.23''), 2)"
    unfolding str by simp
  with width str show ?thesis
    by simp
qed

end
